theory Spec2Isabelle
  imports Complex_Main "HOL-Library.Sublist"
begin

section \<open>JavaScript values and strings\<close>

text \<open>
  Strings are \<^typ>\<open>string\<close>: lists of 8-bit characters, so the model covers the
  Latin-1 range of JavaScript's UTF-16 code units. Numbers are the reals, the negative
  zero and the three non-finite values: \<open>JFinite 0\<close> is \<open>+0\<close>, \<open>JNegZero\<close> is \<open>-0\<close>,
  which \<open>Object.is\<close> and a deep comparison tell apart. \<open>Number.isInteger\<close> and the
  comparisons of the source read them exactly.
\<close>

datatype js_number = JFinite real | JNegZero | JNaN | JPosInfinity | JNegInfinity

text \<open>
  A value of type \<open>unknown\<close>. A function and a symbol carry their textual form, a
  compiled pattern its source and its flags, an object its own enumerable properties
  in insertion order.
\<close>

datatype js_value =
    JUndefined
  | JNull
  | JBoolean bool
  | JNumber js_number
  | JString string
  | JBigInt int
  | JSymbol string
  | JFunction string
  | JRegExp string string
  | JArray "js_value list"
  | JObject "(string \<times> js_value) list"

datatype js_type =
  TUndefined | TObject | TBoolean | TNumber | TString | TBigInt | TSymbol | TFunction

fun typeof :: "js_value \<Rightarrow> js_type" where
  "typeof JUndefined = TUndefined"
| "typeof JNull = TObject"
| "typeof (JBoolean b) = TBoolean"
| "typeof (JNumber n) = TNumber"
| "typeof (JString s) = TString"
| "typeof (JBigInt i) = TBigInt"
| "typeof (JSymbol d) = TSymbol"
| "typeof (JFunction t) = TFunction"
| "typeof (JRegExp src flags) = TObject"
| "typeof (JArray vs) = TObject"
| "typeof (JObject kvs) = TObject"

text \<open>
  \<open>obj[key]\<close> for the property names the sanitizer reads: a plain object yields the
  property or \<open>undefined\<close>; arrays and compiled patterns have no property of these
  names.
\<close>

fun get_prop :: "js_value \<Rightarrow> string \<Rightarrow> js_value" where
  "get_prop (JObject kvs) k = (case map_of kvs k of Some v \<Rightarrow> v | None \<Rightarrow> JUndefined)"
| "get_prop v k = JUndefined"

text \<open>\<open>Object.keys\<close> of a plain object.\<close>

fun object_keys :: "js_value \<Rightarrow> string list" where
  "object_keys (JObject kvs) = map fst kvs"
| "object_keys v = []"

text \<open>\<open>obj.key = v\<close> on a freshly built object whose keys are assigned once each.\<close>

fun set_prop :: "js_value \<Rightarrow> string \<Rightarrow> js_value \<Rightarrow> js_value" where
  "set_prop (JObject kvs) k v = JObject (kvs @ [(k, v)])"
| "set_prop w k v = w"

text \<open>\<open>RegExp.prototype.toString\<close>: the source between slashes, then the flags.\<close>

definition regexp_toString :: "string \<Rightarrow> string \<Rightarrow> string" where
  "regexp_toString src flags = ''/'' @ src @ ''/'' @ flags"

text \<open>\<open>String.prototype.includes\<close> and \<open>startsWith\<close>.\<close>

fun str_includes :: "string \<Rightarrow> string \<Rightarrow> bool" where
  "str_includes [] sub = (sub = [])"
| "str_includes (c # cs) sub = (prefix sub (c # cs) \<or> str_includes cs sub)"

definition startsWith :: "string \<Rightarrow> string \<Rightarrow> bool" where
  "startsWith s p = prefix p s"

abbreviation NUL :: char where
  "NUL \<equiv> CHR 0x00"

section \<open>Runtime caching rules: merge by pattern identity\<close>

text \<open>
  \<open>RuntimeCachingRule["urlPattern"]\<close> is a string, a compiled pattern (source and
  flags) or a matcher function (its \<open>toString()\<close> text). The last branch of
  \<open>normalizeUrlPattern\<close>, \<open>String(pattern)\<close>, is reached by no value of that type.
  Of the fields the merge does not read, \<open>handler\<close> and the cache name of
  \<open>options\<close> are kept, so that rules with one pattern can differ.
\<close>

datatype url_pattern =
    PatString string
  | PatRegExp string string
  | PatFunction string

record runtime_caching_rule =
  urlPattern :: url_pattern
  handler :: string
  cacheName :: "string option"

fun normalizeUrlPattern :: "url_pattern \<Rightarrow> string" where
  "normalizeUrlPattern (PatString s) = s"
| "normalizeUrlPattern (PatRegExp src flags) = src"
| "normalizeUrlPattern (PatFunction text) = text"

definition mergeRuntimeCaching ::
  "runtime_caching_rule list \<Rightarrow> runtime_caching_rule list \<Rightarrow> runtime_caching_rule list" where
  "mergeRuntimeCaching custom defaults =
     (let customPatterns = set (map (\<lambda>rule. normalizeUrlPattern (urlPattern rule)) custom);
          filteredDefaults =
            filter (\<lambda>defaultRule.
              normalizeUrlPattern (urlPattern defaultRule) \<notin> customPatterns) defaults
      in custom @ filteredDefaults)"

text \<open>
  The specification's wording of the identity and of the merge, kept apart from the
  code's. The identity of a rule is its pattern when that is a string, the source of
  its pattern when that is a compiled pattern, and the textual form of its pattern when
  that is a function. A default is overridden when some custom rule has its identity;
  the defaults are walked once, in order, and the survivors follow the custom rules.
\<close>

definition identity_of :: "runtime_caching_rule \<Rightarrow> string" where
  "identity_of r =
     (case urlPattern r of
        PatString s \<Rightarrow> s
      | PatRegExp src flags \<Rightarrow> src
      | PatFunction text \<Rightarrow> text)"

definition overridden :: "runtime_caching_rule list \<Rightarrow> runtime_caching_rule \<Rightarrow> bool" where
  "overridden custom d = (\<exists>c \<in> set custom. identity_of c = identity_of d)"

fun surviving_defaults ::
  "runtime_caching_rule list \<Rightarrow> runtime_caching_rule list \<Rightarrow> runtime_caching_rule list" where
  "surviving_defaults custom [] = []"
| "surviving_defaults custom (d # ds) =
     (if overridden custom d then surviving_defaults custom ds
      else d # surviving_defaults custom ds)"

fun count_not_overridden :: "runtime_caching_rule list \<Rightarrow> runtime_caching_rule list \<Rightarrow> nat" where
  "count_not_overridden custom [] = 0"
| "count_not_overridden custom (d # ds) =
     (if overridden custom d then 0 else 1) + count_not_overridden custom ds"

section \<open>Security utilities: the runtime caching rule sanitizer\<close>

definition ALLOWED_HANDLERS :: "string list" where
  "ALLOWED_HANDLERS =
     [''CacheFirst'', ''CacheOnly'', ''NetworkFirst'', ''NetworkOnly'', ''StaleWhileRevalidate'']"

text \<open>\<open>Number.isInteger\<close>: finite and equal to its floor.\<close>

fun Number_isInteger :: "js_value \<Rightarrow> bool" where
  "Number_isInteger (JNumber (JFinite r)) = (of_int \<lfloor>r\<rfloor> = r)"
| "Number_isInteger (JNumber JNegZero) = True"
| "Number_isInteger v = False"

text \<open>
  The guard the source repeats for each numeric option:
  \<open>typeof v === 'number' && Number.isInteger(v) && v > 0 && v <= bound\<close>. The
  negative zero is an integer that is not above zero.
\<close>

fun positive_integer_upto :: "real \<Rightarrow> js_value \<Rightarrow> bool" where
  "positive_integer_upto bound (JNumber (JFinite r)) =
     (Number_isInteger (JNumber (JFinite r)) \<and> 0 < r \<and> r \<le> bound)"
| "positive_integer_upto bound v = False"

text \<open>\<open>/^[a-zA-Z0-9_-]+$/.test(cacheName)\<close>.\<close>

definition is_alnum :: "char \<Rightarrow> bool" where
  "is_alnum c =
     (c \<in> set (''abcdefghijklmnopqrstuvwxyz'' @ ''ABCDEFGHIJKLMNOPQRSTUVWXYZ'' @ ''0123456789''))"

definition cacheName_pattern_test :: "string \<Rightarrow> bool" where
  "cacheName_pattern_test s =
     (s \<noteq> [] \<and> list_all (\<lambda>c. is_alnum c \<or> c = CHR ''_'' \<or> c = CHR ''-'') s)"

text \<open>The block that fills \<open>sanitizedExpiration\<close> from \<open>options['expiration']\<close>.\<close>

definition sanitizedExpiration_of :: "js_value \<Rightarrow> js_value" where
  "sanitizedExpiration_of expiration =
     (let e0 = JObject [];
          e1 = (if positive_integer_upto 10000 (get_prop expiration ''maxEntries'')
                then set_prop e0 ''maxEntries'' (get_prop expiration ''maxEntries'')
                else e0);
          e2 = (if positive_integer_upto 31536000 (get_prop expiration ''maxAgeSeconds'')
                then set_prop e1 ''maxAgeSeconds'' (get_prop expiration ''maxAgeSeconds'')
                else e1)
      in e2)"

text \<open>The block that fills \<open>sanitizedOptions\<close> from \<open>ruleObj['options']\<close>.\<close>

definition sanitizedOptions_of :: "js_value \<Rightarrow> js_value" where
  "sanitizedOptions_of options =
     (let o0 = JObject [];
          o1 = (case get_prop options ''cacheName'' of
                  JString name \<Rightarrow>
                    if cacheName_pattern_test name \<and> length name \<le> 100
                    then set_prop o0 ''cacheName'' (JString name)
                    else o0
                | _ \<Rightarrow> o0);
          expiration = get_prop options ''expiration'';
          o2 = (if typeof expiration = TObject \<and> expiration \<noteq> JNull
                then (let sanitizedExpiration = sanitizedExpiration_of expiration
                      in if length (object_keys sanitizedExpiration) > 0
                         then set_prop o1 ''expiration'' sanitizedExpiration
                         else o1)
                else o1);
          o3 = (if positive_integer_upto 300 (get_prop options ''networkTimeoutSeconds'')
                then set_prop o2 ''networkTimeoutSeconds''
                       (get_prop options ''networkTimeoutSeconds'')
                else o2)
      in o3)"

text \<open>
  The \<open>urlPattern\<close> branch: a non-empty string without NUL is kept as it is, a
  compiled pattern is replaced by its \<open>toString()\<close>, anything else is rejected.
\<close>

fun sanitized_urlPattern :: "js_value \<Rightarrow> string option" where
  "sanitized_urlPattern (JString pat) =
     (if length pat = 0 then None
      else if str_includes pat [NUL] then None
      else Some pat)"
| "sanitized_urlPattern (JRegExp src flags) = Some (regexp_toString src flags)"
| "sanitized_urlPattern v = None"

text \<open>\<open>null\<close> is \<open>None\<close>; a result is the freshly built object.\<close>

definition sanitizeRuntimeCachingRule :: "js_value \<Rightarrow> js_value option" where
  "sanitizeRuntimeCachingRule rule =
     (if rule = JNull \<or> typeof rule \<noteq> TObject then None
      else case sanitized_urlPattern (get_prop rule ''urlPattern'') of
        None \<Rightarrow> None
      | Some pat \<Rightarrow>
         (case get_prop rule ''handler'' of
            JString h \<Rightarrow>
              if h \<notin> set ALLOWED_HANDLERS then None
              else
                (let sanitized = JObject [(''urlPattern'', JString pat),
                                          (''handler'', JString h)];
                     options = get_prop rule ''options''
                 in if options \<noteq> JUndefined \<and> typeof options = TObject \<and> options \<noteq> JNull
                    then (let sanitizedOptions = sanitizedOptions_of options
                          in if length (object_keys sanitizedOptions) > 0
                             then Some (set_prop sanitized ''options'' sanitizedOptions)
                             else Some sanitized)
                    else Some sanitized)
          | _ \<Rightarrow> None))"

text \<open>
  Reading a result: a value is a plain object whose keys all come from a given list.
\<close>

fun is_plain_object :: "js_value \<Rightarrow> bool" where
  "is_plain_object (JObject kvs) = True"
| "is_plain_object v = False"

definition only_keys :: "string list \<Rightarrow> js_value \<Rightarrow> bool" where
  "only_keys ks v = (is_plain_object v \<and> set (object_keys v) \<subseteq> set ks)"

text \<open>
  The shape the sanitizer promises: only \<open>urlPattern\<close>, \<open>handler\<close> and \<open>options\<close>
  at the top, a handler from the allow-list, and inside \<open>options\<close> (when present)
  only \<open>cacheName\<close>, \<open>expiration\<close> and \<open>networkTimeoutSeconds\<close>, with only
  \<open>maxEntries\<close> and \<open>maxAgeSeconds\<close> inside \<open>expiration\<close>.
\<close>

definition allow_listed_result :: "js_value \<Rightarrow> bool" where
  "allow_listed_result out =
     (only_keys [''urlPattern'', ''handler'', ''options''] out
      \<and> (\<exists>h \<in> set ALLOWED_HANDLERS. get_prop out ''handler'' = JString h)
      \<and> (get_prop out ''options'' = JUndefined
          \<or> (only_keys [''cacheName'', ''expiration'', ''networkTimeoutSeconds'']
                (get_prop out ''options'')
              \<and> (get_prop (get_prop out ''options'') ''expiration'' = JUndefined
                  \<or> only_keys [''maxEntries'', ''maxAgeSeconds'']
                       (get_prop (get_prop out ''options'') ''expiration'')))))"

text \<open>Candidates used to exercise the sanitizer.\<close>

definition rule_with_options :: js_value where
  "rule_with_options =
     JObject [(''urlPattern'', JString ''^/api/.*''),
              (''handler'', JString ''NetworkFirst''),
              (''method'', JString ''GET''),
              (''options'',
                 JObject [(''cacheName'', JString ''my-cache''),
                          (''plugins'', JArray [JFunction ''() => attack()'']),
                          (''expiration'',
                             JObject [(''maxEntries'', JNumber (JFinite 50)),
                                      (''maxAgeSeconds'', JNumber (JFinite (1/2))),
                                      (''purgeOnQuotaError'', JBoolean True)]),
                          (''networkTimeoutSeconds'', JNumber (JFinite 301))])]"

definition rule_lowercase_handler :: js_value where
  "rule_lowercase_handler =
     JObject [(''urlPattern'', JString ''/test''), (''handler'', JString ''cachefirst'')]"

definition rule_regexp :: js_value where
  "rule_regexp =
     JObject [(''urlPattern'', JRegExp ''abc'' []), (''handler'', JString ''CacheFirst'')]"

definition rule_regexp_nul :: js_value where
  "rule_regexp_nul =
     JObject [(''urlPattern'', JRegExp [CHR ''a'', NUL, CHR ''b''] ''i''),
              (''handler'', JString ''CacheOnly'')]"

text \<open>Rules used to exercise the merge.\<close>

definition custom_api_rule :: runtime_caching_rule where
  "custom_api_rule =
     \<lparr>urlPattern = PatString ''^/api/.*'', handler = ''CacheFirst'',
      cacheName = Some ''custom-api-cache''\<rparr>"

definition default_api_rule :: runtime_caching_rule where
  "default_api_rule =
     \<lparr>urlPattern = PatString ''^/api/.*'', handler = ''NetworkFirst'',
      cacheName = Some ''apis''\<rparr>"

definition default_catch_all_rule :: runtime_caching_rule where
  "default_catch_all_rule =
     \<lparr>urlPattern = PatString ''.*'', handler = ''NetworkFirst'', cacheName = Some ''others''\<rparr>"

text \<open>
  A second custom rule for the pattern of \<open>custom_api_rule\<close>, and a rule with the
  compiled pattern for the same paths: a slash is written escaped in a pattern literal,
  so the source holds a backslash before each slash.
\<close>

definition custom_api_network_only_rule :: runtime_caching_rule where
  "custom_api_network_only_rule =
     \<lparr>urlPattern = PatString ''^/api/.*'', handler = ''NetworkOnly'', cacheName = None\<rparr>"

definition custom_regexp_api_rule :: runtime_caching_rule where
  "custom_regexp_api_rule =
     \<lparr>urlPattern = PatRegExp (''^'' @ [CHR 0x5C] @ ''/api'' @ [CHR 0x5C] @ ''/.*'') [],
      handler = ''CacheFirst'', cacheName = Some ''custom-api''\<rparr>"

text \<open>
  The compiled pattern \<open>/.*/\<close>, whose source is the catch-all default's string, and
  two rules with one matcher function: the fourth default, and a custom rule written
  with the same text.
\<close>

definition custom_any_regexp_rule :: runtime_caching_rule where
  "custom_any_regexp_rule =
     \<lparr>urlPattern = PatRegExp ''.*'' [], handler = ''StaleWhileRevalidate'',
      cacheName = Some ''everything''\<rparr>"

definition image_matcher_text :: string where
  "image_matcher_text = ''({ request }) => request.destination === '' @ [CHR 0x22] @ ''image'' @ [CHR 0x22]"

definition default_images_rule :: runtime_caching_rule where
  "default_images_rule =
     \<lparr>urlPattern = PatFunction image_matcher_text, handler = ''CacheFirst'',
      cacheName = Some ''images''\<rparr>"

definition custom_images_rule :: runtime_caching_rule where
  "custom_images_rule =
     \<lparr>urlPattern = PatFunction image_matcher_text, handler = ''NetworkOnly'',
      cacheName = None\<rparr>"

definition default_static_files_rule :: runtime_caching_rule where
  "default_static_files_rule =
     \<lparr>urlPattern = PatString ([CHR 0x5C] @ ''.(ico|png|svg|txt|woff2?)$''),
      handler = ''CacheFirst'', cacheName = Some ''static-files''\<rparr>"

section \<open>Security utilities: path sanitization\<close>

text \<open>
  \<open>String.prototype.trim\<close> strips white space and line terminators from both ends;
  in the Latin-1 range these are TAB, LF, VT, FF, CR, SPACE and NBSP.
\<close>

definition is_js_whitespace :: "char \<Rightarrow> bool" where
  "is_js_whitespace c =
     (c \<in> set [CHR 0x09, CHR 0x0A, CHR 0x0B, CHR 0x0C, CHR 0x0D, CHR 0x20, CHR 0xA0])"

definition trim :: "string \<Rightarrow> string" where
  "trim s = rev (dropWhile is_js_whitespace (rev (dropWhile is_js_whitespace s)))"

abbreviation is_slash :: "char \<Rightarrow> bool" where
  "is_slash c \<equiv> c = CHR ''/''"

text \<open>\<open>.replace(/\\/g, '/')\<close>: every backslash becomes a slash.\<close>

definition replace_backslashes :: "string \<Rightarrow> string" where
  "replace_backslashes s = map (\<lambda>c. if c = CHR 0x5C then CHR ''/'' else c) s"

text \<open>\<open>.replace(/\0/g, '')\<close>: every NUL is dropped.\<close>

definition remove_nul :: "string \<Rightarrow> string" where
  "remove_nul s = filter (\<lambda>c. c \<noteq> NUL) s"

text \<open>
  \<open>.replace(/\.\.(?:\/|$)/g, '')\<close>: scanning from the left, two dots followed by a
  slash are dropped with the slash; two dots at the very end are dropped.
\<close>

fun remove_dotdot_sep :: "string \<Rightarrow> string" where
  "remove_dotdot_sep [] = []"
| "remove_dotdot_sep [a] = [a]"
| "remove_dotdot_sep [a, b] = (if a = CHR ''.'' \<and> b = CHR ''.'' then [] else [a, b])"
| "remove_dotdot_sep (a # b # c # cs) =
     (if a = CHR ''.'' \<and> b = CHR ''.'' \<and> c = CHR ''/'' then remove_dotdot_sep cs
      else a # remove_dotdot_sep (b # c # cs))"

text \<open>
  \<open>.replace(/\.\/+/g, '')\<close>: a dot followed by slashes is dropped with the whole run
  of slashes.
\<close>

function remove_dot_slashes :: "string \<Rightarrow> string" where
  "remove_dot_slashes [] = []"
| "remove_dot_slashes [a] = [a]"
| "remove_dot_slashes (a # b # cs) =
     (if a = CHR ''.'' \<and> b = CHR ''/'' then remove_dot_slashes (dropWhile is_slash cs)
      else a # remove_dot_slashes (b # cs))"
  by pat_completeness auto
termination
  by (relation "measure length") (auto simp: less_Suc_eq_le le_SucI length_dropWhile_le)

text \<open>\<open>.replace(/\/+/g, '/')\<close>: every run of slashes becomes one slash.\<close>

function collapse_slashes :: "string \<Rightarrow> string" where
  "collapse_slashes [] = []"
| "collapse_slashes (a # cs) =
     (if a = CHR ''/'' then CHR ''/'' # collapse_slashes (dropWhile is_slash cs)
      else a # collapse_slashes cs)"
  by pat_completeness auto
termination
  by (relation "measure length") (auto simp: less_Suc_eq_le length_dropWhile_le)

text \<open>\<open>.replace(/^\/+/, '')\<close> and \<open>.replace(/\/+$/, '')\<close>.\<close>

definition strip_leading_slashes :: "string \<Rightarrow> string" where
  "strip_leading_slashes s = dropWhile is_slash s"

definition strip_trailing_slashes :: "string \<Rightarrow> string" where
  "strip_trailing_slashes s = rev (dropWhile is_slash (rev s))"

text \<open>\<open>.replace(/\.\./g, '')\<close>: scanning from the left, each pair of dots is dropped.\<close>

fun remove_dotdot :: "string \<Rightarrow> string" where
  "remove_dotdot [] = []"
| "remove_dotdot [a] = [a]"
| "remove_dotdot (a # b # cs) =
     (if a = CHR ''.'' \<and> b = CHR ''.'' then remove_dotdot cs
      else a # remove_dotdot (b # cs))"

lemma str_includes_pair:
  "str_includes (x # y # s) [a, b] \<longleftrightarrow> (x = a \<and> y = b) \<or> str_includes (y # s) [a, b]"
  by auto

lemma length_remove_dotdot_le: "length (remove_dotdot s) \<le> length s"
  by (induction s rule: remove_dotdot.induct) auto

lemma length_remove_dotdot_less:
  "str_includes s ''..'' \<Longrightarrow> length (remove_dotdot s) < length s"
proof (induction s rule: remove_dotdot.induct)
  case (3 a b cs)
  show ?case
  proof (cases "a = CHR ''.'' \<and> b = CHR ''.''")
    case True
    then show ?thesis
      using length_remove_dotdot_le [of cs] by simp
  next
    case False
    with "3.prems" have "str_includes (b # cs) ''..''"
      by auto
    with False "3.IH"(2) show ?thesis
      by auto
  qed
qed simp_all

text \<open>
  The second pass: \<open>while (sanitized.includes('..')) sanitized = sanitized.replace(/\.\./g, '')\<close>.
  Each round shortens the string, so the loop ends.
\<close>

function strip_all_dotdot :: "string \<Rightarrow> string" where
  "strip_all_dotdot s =
     (if str_includes s ''..'' then strip_all_dotdot (remove_dotdot s) else s)"
  by pat_completeness auto
termination
  by (relation "measure length") (auto simp: length_remove_dotdot_less)

declare strip_all_dotdot.simps [simp del]

text \<open>The function as a whole; a non-string argument yields the empty string.\<close>

fun sanitizePath :: "js_value \<Rightarrow> string" where
  "sanitizePath (JString path) =
     (let sanitized =
            strip_leading_slashes (collapse_slashes (remove_dot_slashes (remove_dotdot_sep
              (remove_nul (replace_backslashes (trim path))))));
          sanitized = strip_all_dotdot sanitized;
          sanitized = strip_trailing_slashes (strip_leading_slashes (collapse_slashes sanitized))
      in sanitized)"
| "sanitizePath v = []"

text \<open>
  What the passes aim at: no backslash, no NUL, no \<open>..\<close>, no \<open>./\<close>, no doubled
  slash, no slash at either end.
\<close>

definition path_normal_form :: "string \<Rightarrow> bool" where
  "path_normal_form y =
     (CHR 0x5C \<notin> set y \<and> NUL \<notin> set y
      \<and> \<not> str_includes y ''..'' \<and> \<not> str_includes y ''./'' \<and> \<not> str_includes y ''//''
      \<and> \<not> prefix ''/'' y \<and> \<not> prefix ''/'' (rev y))"

section \<open>Security utilities: traversal detection\<close>

definition ascii_lower :: "char \<Rightarrow> char" where
  "ascii_lower c =
     (case map_of (zip ''ABCDEFGHIJKLMNOPQRSTUVWXYZ'' ''abcdefghijklmnopqrstuvwxyz'') c of
        Some l \<Rightarrow> l
      | None \<Rightarrow> c)"

text \<open>
  \<open>/sub/i.test(s)\<close> for a literal \<open>sub\<close> written in lower case: under the \<open>i\<close>
  flag only the two cases of an ASCII letter match each other.
\<close>

definition str_includes_ci :: "string \<Rightarrow> string \<Rightarrow> bool" where
  "str_includes_ci s sub = str_includes (map ascii_lower s) sub"

text \<open>
  The six patterns of \<open>hasPathTraversal\<close>, in the source's order: \<open>/\.\./\<close>,
  \<open>/\.\.\\/\<close>, \<open>/%2e%2e/i\<close>, \<open>/%252e%252e/i\<close>, \<open>/\.%2e/i\<close>, \<open>/%2e\./i\<close>.
  Every caller passes a string, so the guard for other types is left out.
\<close>

definition hasPathTraversal :: "string \<Rightarrow> bool" where
  "hasPathTraversal input =
     (str_includes input ''..''
      \<or> str_includes input (''..'' @ [CHR 0x5C])
      \<or> str_includes_ci input ''%2e%2e''
      \<or> str_includes_ci input ''%252e%252e''
      \<or> str_includes_ci input ''.%2e''
      \<or> str_includes_ci input ''%2e.'')"

section \<open>The precache manifest generator\<close>

record PrecacheEntry =
  url :: string
  revision :: "string option"

text \<open>
  An element of \<open>additionalManifestEntries\<close> as it arrives at run time: the generator
  checks \<open>entry.url\<close> itself, so the field is an arbitrary value.
\<close>

record AdditionalEntry =
  entry_url :: js_value
  entry_revision :: "string option"

text \<open>
  A build exclusion is a glob-like string or a compiled pattern; of the latter only its
  \<open>test\<close> is used, taken as a predicate (a pattern without the \<open>g\<close> and \<open>y\<close>
  flags, whose \<open>test\<close> keeps no position between calls). The rewrite table is the
  list of the entries of \<open>modifyURLPrefix\<close> in the order \<open>Object.entries\<close> yields.
\<close>

datatype exclude_pattern = ExcludeGlob string | ExcludeRegExp "string \<Rightarrow> bool"

record ManifestGeneratorOptions =
  buildDir :: string
  publicDir :: string
  basePath :: string
  publicExcludes :: "string list"
  buildExcludes :: "exclude_pattern list"
  additionalManifestEntries :: "AdditionalEntry list"
  modifyURLPrefix :: "(string \<times> string) list"
  projectRoot :: string

record NextBuildManifest =
  polyfillFiles :: "string list option"
  rootMainFiles :: "string list option"
  lowPriorityFiles :: "string list option"
  pages :: "(string \<times> string list) list option"

text \<open>
  What the generator asks of Node and of the file system, taken as parameters:
  \<open>path.join\<close>, \<open>readFile\<close> (\<open>None\<close> when it rejects), \<open>stat\<close> (whether it
  resolves), \<open>globby("**/*", {cwd, ignore})\<close> (\<open>None\<close> when it rejects),
  \<open>JSON.parse\<close> of the build manifest (\<open>None\<close> when it throws or yields \<open>null\<close>),
  the hexadecimal MD5 digest and the text of \<open>Date.now()\<close>.
\<close>

record platform =
  path_join :: "string list \<Rightarrow> string"
  fs_readFile :: "string \<Rightarrow> string option"
  fs_stat :: "string \<Rightarrow> bool"
  fs_globby :: "string \<Rightarrow> string list \<Rightarrow> string list option"
  JSON_parse_manifest :: "string \<Rightarrow> NextBuildManifest option"
  md5_hex :: "string \<Rightarrow> string"
  date_now :: string

text \<open>The file-system calls a run makes, in order.\<close>

datatype fs_op = ReadFile string | Stat string | Globby string "string list"

datatype generator_error = BuildDirOutsideProject | PublicDirOutsideProject

definition isPathWithinProject :: "platform \<Rightarrow> string \<Rightarrow> string \<Rightarrow> bool" where
  "isPathWithinProject pf filePath rootDir =
     (let normalizedPath = path_join pf [filePath];
          normalizedRoot = path_join pf [rootDir]
      in startsWith normalizedPath normalizedRoot)"

text \<open>
  \<open>generateRevisionHash\<close> catches its own read error and falls back to the digest of
  the clock, so it always returns eight characters of a digest.
\<close>

definition generateRevisionHash :: "platform \<Rightarrow> string \<Rightarrow> fs_op list \<times> string" where
  "generateRevisionHash pf filePath =
     ([ReadFile filePath],
      (case fs_readFile pf filePath of
         Some content \<Rightarrow> take 8 (md5_hex pf content)
       | None \<Rightarrow> take 8 (md5_hex pf (date_now pf))))"

text \<open>
  A string exclusion is turned into \<open>new RegExp('^' + p + '$')\<close> after every regular
  expression metacharacter but \<open>*\<close> and \<open>?\<close> is escaped, \<open>*\<close> becomes \<open>.*\<close> and
  \<open>?\<close> becomes \<open>.\<close>; a dot of a pattern matches any character but a line
  terminator. \<open>glob_test\<close> is the test of that pattern.
\<close>

definition is_line_terminator :: "char \<Rightarrow> bool" where
  "is_line_terminator c = (c = CHR 0x0A \<or> c = CHR 0x0D)"

fun glob_test :: "string \<Rightarrow> string \<Rightarrow> bool" where
  "glob_test [] v = (v = [])"
| "glob_test (p # ps) [] = (p = CHR ''*'' \<and> glob_test ps [])"
| "glob_test (p # ps) (c # cs) =
     (if p = CHR ''*''
      then glob_test ps (c # cs) \<or> (\<not> is_line_terminator c \<and> glob_test (p # ps) cs)
      else if p = CHR ''?'' then \<not> is_line_terminator c \<and> glob_test ps cs
      else p = c \<and> glob_test ps cs)"

fun pattern_test :: "exclude_pattern \<Rightarrow> string \<Rightarrow> bool" where
  "pattern_test (ExcludeGlob p) v = glob_test p v"
| "pattern_test (ExcludeRegExp t) v = t v"

definition matchesExclusion :: "string \<Rightarrow> exclude_pattern list \<Rightarrow> bool" where
  "matchesExclusion v patterns = list_ex (\<lambda>p. pattern_test p v) patterns"

text \<open>The entries of the rewrite table are tried in order; the first match is applied.\<close>

fun applyURLPrefixModifications :: "string \<Rightarrow> (string \<times> string) list \<Rightarrow> string" where
  "applyURLPrefixModifications u [] = u"
| "applyURLPrefixModifications u ((originalPrefix, newPrefix) # rest) =
     (if startsWith u originalPrefix then newPrefix @ drop (length originalPrefix) u
      else applyURLPrefixModifications u rest)"

definition readBuildManifest ::
  "platform \<Rightarrow> string \<Rightarrow> fs_op list \<times> NextBuildManifest option" where
  "readBuildManifest pf dir =
     (let manifestPath = path_join pf [dir, ''build-manifest.json'']
      in ([ReadFile manifestPath],
          (case fs_readFile pf manifestPath of
             Some content \<Rightarrow> JSON_parse_manifest pf content
           | None \<Rightarrow> None)))"

text \<open>A \<open>Set\<close> of strings, as the list of its members in insertion order.\<close>

definition set_add :: "string list \<Rightarrow> string \<Rightarrow> string list" where
  "set_add s x = (if x \<in> set s then s else s @ [x])"

definition set_add_all :: "string list \<Rightarrow> string list \<Rightarrow> string list" where
  "set_add_all s xs = foldl set_add s xs"

definition extractAssetsFromManifest :: "NextBuildManifest \<Rightarrow> string list" where
  "extractAssetsFromManifest manifest =
     (let assets = [];
          assets = (case polyfillFiles manifest of
                      Some files \<Rightarrow> set_add_all assets files | None \<Rightarrow> assets);
          assets = (case rootMainFiles manifest of
                      Some files \<Rightarrow> set_add_all assets files | None \<Rightarrow> assets);
          assets = (case lowPriorityFiles manifest of
                      Some files \<Rightarrow> set_add_all assets files | None \<Rightarrow> assets);
          assets = (case pages manifest of
                      Some ps \<Rightarrow> foldl set_add_all assets (map snd ps) | None \<Rightarrow> assets)
      in assets)"

definition getStaticBuildFiles :: "platform \<Rightarrow> string \<Rightarrow> string \<Rightarrow> fs_op list \<times> string list" where
  "getStaticBuildFiles pf dir rootDir =
     (let staticDir = path_join pf [dir, ''static'']
      in if \<not> fs_stat pf staticDir then ([Stat staticDir], [])
         else (case fs_globby pf staticDir [] of
                 None \<Rightarrow> ([Stat staticDir, Globby staticDir []], [])
               | Some files \<Rightarrow>
                   ([Stat staticDir, Globby staticDir []],
                    filter (\<lambda>file. \<not> hasPathTraversal file)
                      (map (\<lambda>file. ''/_next/static/'' @ file) files))))"

definition getPublicFiles ::
  "platform \<Rightarrow> string \<Rightarrow> string \<Rightarrow> string list \<Rightarrow> fs_op list \<times> string list" where
  "getPublicFiles pf dir rootDir excludePatterns =
     (if \<not> fs_stat pf dir then ([Stat dir], [])
      else if \<not> isPathWithinProject pf dir rootDir then ([Stat dir], [])
      else (case fs_globby pf dir excludePatterns of
              None \<Rightarrow> ([Stat dir, Globby dir excludePatterns], [])
            | Some files \<Rightarrow>
                ([Stat dir, Globby dir excludePatterns],
                 filter (\<lambda>file. \<not> hasPathTraversal file) (map (\<lambda>file. ''/'' @ file) files))))"

text \<open>
  The two patterns of \<open>needsRevision\<close>. \<open>hex_run n isHex rest k\<close> reads the
  quantifier \<open>{8,}\<close> after \<open>n\<close> digits have been taken: it may stop once eight are
  taken and go on with \<open>k\<close>, or take one more digit.
\<close>

definition is_hex_lower :: "char \<Rightarrow> bool" where
  "is_hex_lower c = (c \<in> set ''abcdef0123456789'')"

definition is_hex_ci :: "char \<Rightarrow> bool" where
  "is_hex_ci c = is_hex_lower (ascii_lower c)"

fun hex_run :: "nat \<Rightarrow> (char \<Rightarrow> bool) \<Rightarrow> string \<Rightarrow> (string \<Rightarrow> bool) \<Rightarrow> bool" where
  "hex_run n isHex [] k = (8 \<le> n \<and> k [])"
| "hex_run n isHex (c # cs) k =
     ((8 \<le> n \<and> k (c # cs)) \<or> (isHex c \<and> hex_run (Suc n) isHex cs k))"

definition hashed_extensions :: "string list" where
  "hashed_extensions =
     [''js'', ''css'', ''woff2'', ''woff'', ''ttf'', ''eot'', ''svg'', ''png'', ''jpg'', ''jpeg'',
      ''gif'', ''webp'', ''avif'']"

text \<open>
  \<open>/\.[a-f0-9]{8,}\.(js|css|woff2?|ttf|eot|svg|png|jpg|jpeg|gif|webp|avif)$/i\<close>,
  tried at the start of a suffix of the URL.
\<close>

fun hashPattern_at :: "string \<Rightarrow> bool" where
  "hashPattern_at [] = False"
| "hashPattern_at (c # cs) =
     (c = CHR ''.'' \<and>
      hex_run 0 is_hex_ci cs
        (\<lambda>rest. case rest of
                  [] \<Rightarrow> False
                | d # e \<Rightarrow> d = CHR ''.'' \<and> map ascii_lower e \<in> set hashed_extensions))"

text \<open>\<open>/[a-f0-9]{8,}-/\<close>, tried at the start of a suffix of the URL.\<close>

definition chunkHashPattern_at :: "string \<Rightarrow> bool" where
  "chunkHashPattern_at s = hex_run 0 is_hex_lower s (\<lambda>rest. prefix ''-'' rest)"

text \<open>\<open>pattern.test(s)\<close> for a pattern without \<open>^\<close>: it may match at any position.\<close>

fun test_anywhere :: "(string \<Rightarrow> bool) \<Rightarrow> string \<Rightarrow> bool" where
  "test_anywhere m [] = m []"
| "test_anywhere m (c # cs) = (m (c # cs) \<or> test_anywhere m cs)"

definition needsRevision :: "string \<Rightarrow> bool" where
  "needsRevision u =
     (if test_anywhere hashPattern_at u then False
      else if test_anywhere chunkHashPattern_at u then False
      else True)"

text \<open>
  The state of one run: the entries appended so far, the \<open>seenUrls\<close> set and the
  file-system calls made.
\<close>

record generator_state =
  entries :: "PrecacheEntry list"
  seenUrls :: "string list"
  io_log :: "fs_op list"

text \<open>\<open>asset.replace(/^\/_next\//, "")\<close>.\<close>

definition strip_next_prefix :: "string \<Rightarrow> string" where
  "strip_next_prefix asset =
     (if prefix ''/_next/'' asset then drop (length ''/_next/'') asset else asset)"

definition with_basePath :: "string \<Rightarrow> string \<Rightarrow> string" where
  "with_basePath base u = (if base \<noteq> [] \<and> base \<noteq> ''/'' then base @ u else u)"

text \<open>
  Step 4, the loop over the build assets. The \<open>catch\<close> around the call of
  \<open>generateRevisionHash\<close> is never entered, since that function catches its own
  error.
\<close>

fun process_build_assets ::
  "platform \<Rightarrow> ManifestGeneratorOptions \<Rightarrow> string list \<Rightarrow> generator_state \<Rightarrow> generator_state" where
  "process_build_assets pf opts [] st = st"
| "process_build_assets pf opts (asset # rest) st =
     (let sanitizedAsset = sanitizePath (JString asset)
      in if sanitizedAsset = [] \<and> asset \<noteq> [] then process_build_assets pf opts rest st
         else if matchesExclusion asset (buildExcludes opts)
         then process_build_assets pf opts rest st
         else
           (let u = (if startsWith asset ''/'' then asset else ''/'' @ asset);
                u = with_basePath (basePath opts) u;
                u = applyURLPrefixModifications u (modifyURLPrefix opts)
            in if u \<in> set (seenUrls st) then process_build_assets pf opts rest st
               else
                 (let st = st\<lparr>seenUrls := set_add (seenUrls st) u\<rparr>
                  in if needsRevision u
                     then
                       (let filePath = path_join pf [buildDir opts, strip_next_prefix asset]
                        in case generateRevisionHash pf filePath of
                             (ops, hash) \<Rightarrow>
                               process_build_assets pf opts rest
                                 (st\<lparr>entries := entries st @ [\<lparr>url = u, revision = Some hash\<rparr>],
                                     io_log := io_log st @ ops\<rparr>))
                     else
                       process_build_assets pf opts rest
                         (st\<lparr>entries := entries st @ [\<lparr>url = u, revision = None\<rparr>]\<rparr>))))"

text \<open>Step 5, the loop over the public files.\<close>

fun process_public_files ::
  "platform \<Rightarrow> ManifestGeneratorOptions \<Rightarrow> string list \<Rightarrow> generator_state \<Rightarrow> generator_state" where
  "process_public_files pf opts [] st = st"
| "process_public_files pf opts (file # rest) st =
     (let u = with_basePath (basePath opts) file;
          u = applyURLPrefixModifications u (modifyURLPrefix opts)
      in if u \<in> set (seenUrls st) then process_public_files pf opts rest st
         else
           (let st = st\<lparr>seenUrls := set_add (seenUrls st) u\<rparr>;
                filePath = path_join pf [publicDir opts, drop 1 file]
            in case generateRevisionHash pf filePath of
                 (ops, hash) \<Rightarrow>
                   process_public_files pf opts rest
                     (st\<lparr>entries := entries st @ [\<lparr>url = u, revision = Some hash\<rparr>],
                         io_log := io_log st @ ops\<rparr>)))"

text \<open>
  Step 6, the loop over the additional entries. \<open>!entry.url || typeof entry.url !==
  "string"\<close> lets through exactly the non-empty strings.
\<close>

fun nonempty_string :: "js_value \<Rightarrow> string option" where
  "nonempty_string (JString s) = (if s = [] then None else Some s)"
| "nonempty_string v = None"

fun process_additional_entries ::
  "ManifestGeneratorOptions \<Rightarrow> AdditionalEntry list \<Rightarrow> generator_state \<Rightarrow> generator_state" where
  "process_additional_entries opts [] st = st"
| "process_additional_entries opts (entry # rest) st =
     (case nonempty_string (entry_url entry) of
        None \<Rightarrow> process_additional_entries opts rest st
      | Some eu \<Rightarrow>
          if hasPathTraversal eu then process_additional_entries opts rest st
          else
            (let u = (if startsWith eu ''/'' then with_basePath (basePath opts) eu else eu);
                 u = applyURLPrefixModifications u (modifyURLPrefix opts)
             in if u \<in> set (seenUrls st) then process_additional_entries opts rest st
                else
                  process_additional_entries opts rest
                    (st\<lparr>seenUrls := set_add (seenUrls st) u,
                        entries := entries st @ [\<lparr>url = u, revision = entry_revision entry\<rparr>]\<rparr>)))"

text \<open>
  The generator: the rejection of the promise is \<open>Inl\<close>, the manifest \<open>Inr\<close>; the
  first component lists the file-system calls the run made. The \<open>logger\<close> calls write
  to the console only and are left out.
\<close>

definition generatePrecacheManifest ::
  "platform \<Rightarrow> ManifestGeneratorOptions \<Rightarrow> fs_op list \<times> (generator_error + PrecacheEntry list)" where
  "generatePrecacheManifest pf opts =
     (if \<not> isPathWithinProject pf (buildDir opts) (projectRoot opts)
      then ([], Inl BuildDirOutsideProject)
      else if \<not> isPathWithinProject pf (publicDir opts) (projectRoot opts)
      then ([], Inl PublicDirOutsideProject)
      else
        (let st = \<lparr>entries = [], seenUrls = [], io_log = []\<rparr>
         in case readBuildManifest pf (buildDir opts) of
              (ops1, buildManifest) \<Rightarrow>
           (let manifestAssets = (case buildManifest of
                                    Some m \<Rightarrow> extractAssetsFromManifest m
                                  | None \<Rightarrow> [])
            in case getStaticBuildFiles pf (buildDir opts) (projectRoot opts) of
                 (ops2, staticFiles) \<Rightarrow>
              (let allBuildAssets = set_add_all [] (manifestAssets @ staticFiles);
                   st = process_build_assets pf opts allBuildAssets
                          (st\<lparr>io_log := io_log st @ ops1 @ ops2\<rparr>)
               in case getPublicFiles pf (publicDir opts) (projectRoot opts)
                         (publicExcludes opts) of
                    (ops3, publicFiles) \<Rightarrow>
                 (let st = process_public_files pf opts publicFiles
                             (st\<lparr>io_log := io_log st @ ops3\<rparr>);
                      st = process_additional_entries opts (additionalManifestEntries opts) st
                  in (io_log st, Inr (entries st)))))))"

section \<open>The candidates of a manifest, phase by phase\<close>

text \<open>
  The specification's reading of the generator, kept apart from the loops above: every
  phase proposes candidates in its enumeration order, each with its final URL (after
  \<open>basePath\<close> and the rewrite table) and the revision it would get; the manifest keeps,
  in that order, each candidate whose URL no earlier candidate has.
\<close>

definition build_candidate ::
  "platform \<Rightarrow> ManifestGeneratorOptions \<Rightarrow> string \<Rightarrow> PrecacheEntry option" where
  "build_candidate pf opts asset =
     (if sanitizePath (JString asset) = [] \<and> asset \<noteq> [] then None
      else if matchesExclusion asset (buildExcludes opts) then None
      else
        (let u = applyURLPrefixModifications
                   (with_basePath (basePath opts)
                      (if startsWith asset ''/'' then asset else ''/'' @ asset))
                   (modifyURLPrefix opts)
         in Some \<lparr>url = u,
                  revision =
                    (if needsRevision u
                     then Some (snd (generateRevisionHash pf
                                  (path_join pf [buildDir opts, strip_next_prefix asset])))
                     else None)\<rparr>))"

definition public_candidate ::
  "platform \<Rightarrow> ManifestGeneratorOptions \<Rightarrow> string \<Rightarrow> PrecacheEntry" where
  "public_candidate pf opts file =
     \<lparr>url = applyURLPrefixModifications (with_basePath (basePath opts) file)
              (modifyURLPrefix opts),
      revision = Some (snd (generateRevisionHash pf (path_join pf [publicDir opts, drop 1 file])))\<rparr>"

definition additional_candidate ::
  "ManifestGeneratorOptions \<Rightarrow> AdditionalEntry \<Rightarrow> PrecacheEntry option" where
  "additional_candidate opts entry =
     (case nonempty_string (entry_url entry) of
        None \<Rightarrow> None
      | Some eu \<Rightarrow>
          if hasPathTraversal eu then None
          else Some \<lparr>url = applyURLPrefixModifications
                             (if startsWith eu ''/'' then with_basePath (basePath opts) eu else eu)
                             (modifyURLPrefix opts),
                     revision = entry_revision entry\<rparr>)"

definition build_assets_of :: "platform \<Rightarrow> ManifestGeneratorOptions \<Rightarrow> string list" where
  "build_assets_of pf opts =
     set_add_all []
       ((case snd (readBuildManifest pf (buildDir opts)) of
           Some m \<Rightarrow> extractAssetsFromManifest m
         | None \<Rightarrow> [])
        @ snd (getStaticBuildFiles pf (buildDir opts) (projectRoot opts)))"

definition candidate_entries :: "platform \<Rightarrow> ManifestGeneratorOptions \<Rightarrow> PrecacheEntry list" where
  "candidate_entries pf opts =
     List.map_filter (build_candidate pf opts) (build_assets_of pf opts)
     @ map (public_candidate pf opts)
         (snd (getPublicFiles pf (publicDir opts) (projectRoot opts) (publicExcludes opts)))
     @ List.map_filter (additional_candidate opts) (additionalManifestEntries opts)"

fun first_by_url :: "string list \<Rightarrow> PrecacheEntry list \<Rightarrow> PrecacheEntry list" where
  "first_by_url seen [] = []"
| "first_by_url seen (c # cs) =
     (if url c \<in> set seen then first_by_url seen cs
      else c # first_by_url (seen @ [url c]) cs)"

section \<open>A concrete platform for running the generator\<close>

text \<open>
  Node's \<open>path.join\<close> on POSIX, for the concrete runs below: the non-empty arguments
  are joined with slashes and the result is normalized (\<open>.\<close> and empty segments
  dropped, \<open>..\<close> resolved against the segment before it, a trailing slash kept).
\<close>

fun split_slash :: "string \<Rightarrow> string list" where
  "split_slash [] = [[]]"
| "split_slash (c # cs) =
     (if c = CHR ''/'' then [] # split_slash cs
      else (case split_slash cs of
              seg # segs \<Rightarrow> (c # seg) # segs
            | [] \<Rightarrow> [[c]]))"

fun join_slash :: "string list \<Rightarrow> string" where
  "join_slash [] = []"
| "join_slash [x] = x"
| "join_slash (x # y # r) = x @ ''/'' @ join_slash (y # r)"

fun normalizeString :: "bool \<Rightarrow> string list \<Rightarrow> string list \<Rightarrow> string list" where
  "normalizeString allowAboveRoot res [] = rev res"
| "normalizeString allowAboveRoot res (seg # segs) =
     (if seg = [] \<or> seg = ''.'' then normalizeString allowAboveRoot res segs
      else if seg = ''..''
      then (case res of
              r # rs \<Rightarrow>
                if r \<noteq> ''..'' then normalizeString allowAboveRoot rs segs
                else if allowAboveRoot then normalizeString allowAboveRoot (''..'' # res) segs
                else normalizeString allowAboveRoot res segs
            | [] \<Rightarrow>
                if allowAboveRoot then normalizeString allowAboveRoot [''..''] segs
                else normalizeString allowAboveRoot [] segs)
      else normalizeString allowAboveRoot (seg # res) segs)"

definition posix_normalize :: "string \<Rightarrow> string" where
  "posix_normalize p =
     (if p = [] then ''.''
      else
        (let isAbsolute = prefix ''/'' p;
             trailingSeparator = prefix ''/'' (rev p);
             body = join_slash (normalizeString (\<not> isAbsolute) [] (split_slash p))
         in if body = [] then (if isAbsolute then ''/'' else if trailingSeparator then ''./'' else ''.'')
            else (if isAbsolute then ''/'' else []) @ body
                 @ (if trailingSeparator then ''/'' else [])))"

definition posix_join :: "string list \<Rightarrow> string" where
  "posix_join args =
     (let parts = filter (\<lambda>a. a \<noteq> []) args
      in if parts = [] then ''.'' else posix_normalize (join_slash parts))"

text \<open>
  A project at \<open>/project\<close> whose build output holds the single static asset
  \<open>chunks/abcdef1234.js\<close> and no build manifest, and whose public directory holds
  \<open>robots.txt\<close>. The digest function is the table of the MD5 digests of the texts it
  is asked for in this run.
\<close>

definition robots_txt :: string where
  "robots_txt = ''User-agent: *'' @ [CHR 0x0A] @ ''Allow: /'' @ [CHR 0x0A]"

definition chunk_js :: string where
  "chunk_js = ''console.log(1);''"

definition scenario_md5 :: "string \<Rightarrow> string" where
  "scenario_md5 content =
     (if content = robots_txt then ''5e0bd1c281a62a380d7a948085bfe2d1''
      else if content = chunk_js then ''028a78f54fafe70dec2b7e682852226e''
      else ''faa48af05e71e97fade8497f01a2bddf'')"

definition scenario_platform :: platform where
  "scenario_platform =
     \<lparr>path_join = posix_join,
      fs_readFile = map_of [(''/project/public/robots.txt'', robots_txt),
                            (''/project/.next/static/chunks/abcdef1234.js'', chunk_js)],
      fs_stat = (\<lambda>p. p \<in> set [''/project/.next/static'', ''/project/public'']),
      fs_globby = (\<lambda>cwd ignore.
         if cwd = ''/project/.next/static'' then Some [''chunks/abcdef1234.js'']
         else if cwd = ''/project/public'' then Some [''robots.txt'']
         else None),
      JSON_parse_manifest = (\<lambda>content. None),
      md5_hex = scenario_md5,
      date_now = ''1700000000000''\<rparr>"

definition scenario_options :: ManifestGeneratorOptions where
  "scenario_options =
     \<lparr>buildDir = ''/project/.next'', publicDir = ''/project/public'', basePath = ''/app'',
      publicExcludes = [], buildExcludes = [], additionalManifestEntries = [],
      modifyURLPrefix = [], projectRoot = ''/project''\<rparr>"

text \<open>The same project asked for a build directory that leaves the project root.\<close>

definition escaping_options :: ManifestGeneratorOptions where
  "escaping_options = scenario_options\<lparr>buildDir := ''/project/../etc/.next''\<rparr>"

text \<open>
  Three sources proposing one URL: the static asset \<open>/_next/static/a.js\<close>, a public
  file moved onto it by the rewrite table, and an additional entry naming it.
\<close>

definition clash_platform :: platform where
  "clash_platform =
     scenario_platform
       \<lparr>fs_readFile := map_of [(''/project/public/pub/a.js'', robots_txt),
                               (''/project/.next/static/a.js'', chunk_js)],
        fs_globby := (\<lambda>cwd ignore.
          if cwd = ''/project/.next/static'' then Some [''a.js'']
          else if cwd = ''/project/public'' then Some [''pub/a.js'']
          else None)\<rparr>"

definition clash_options :: ManifestGeneratorOptions where
  "clash_options =
     scenario_options
       \<lparr>basePath := [],
        modifyURLPrefix := [(''/pub/'', ''/_next/static/'')],
        additionalManifestEntries :=
          [\<lparr>entry_url = JString ''/_next/static/a.js'', entry_revision = Some ''extra''\<rparr>,
           \<lparr>entry_url = JString ''/offline'', entry_revision = None\<rparr>]\<rparr>"

text \<open>The same project asked for a public directory outside the project root.\<close>

definition escaping_public_options :: ManifestGeneratorOptions where
  "escaping_public_options = scenario_options\<lparr>publicDir := ''/srv/public''\<rparr>"

section \<open>Security utilities: escaping a value for the service worker\<close>

subsection \<open>JSON.stringify\<close>


abbreviation BSL :: char where
  "BSL \<equiv> CHR 0x5C"

abbreviation DQ :: char where
  "DQ \<equiv> CHR 0x22"

text \<open>
  \<open>QuoteJSONString\<close>: the quote and the backslash are escaped with a backslash, the
  control characters below U+0020 by their short escape or by \<open>\u00XX\<close>; every other
  character stands for itself.
\<close>

definition control_escapes :: "(char \<times> string) list" where
  "control_escapes =
     [(CHR 0x00, BSL # ''u0000''), (CHR 0x01, BSL # ''u0001''), (CHR 0x02, BSL # ''u0002''),
      (CHR 0x03, BSL # ''u0003''), (CHR 0x04, BSL # ''u0004''), (CHR 0x05, BSL # ''u0005''),
      (CHR 0x06, BSL # ''u0006''), (CHR 0x07, BSL # ''u0007''), (CHR 0x08, BSL # ''b''),
      (CHR 0x09, BSL # ''t''), (CHR 0x0A, BSL # ''n''), (CHR 0x0B, BSL # ''u000b''),
      (CHR 0x0C, BSL # ''f''), (CHR 0x0D, BSL # ''r''), (CHR 0x0E, BSL # ''u000e''),
      (CHR 0x0F, BSL # ''u000f''), (CHR 0x10, BSL # ''u0010''), (CHR 0x11, BSL # ''u0011''),
      (CHR 0x12, BSL # ''u0012''), (CHR 0x13, BSL # ''u0013''), (CHR 0x14, BSL # ''u0014''),
      (CHR 0x15, BSL # ''u0015''), (CHR 0x16, BSL # ''u0016''), (CHR 0x17, BSL # ''u0017''),
      (CHR 0x18, BSL # ''u0018''), (CHR 0x19, BSL # ''u0019''), (CHR 0x1A, BSL # ''u001a''),
      (CHR 0x1B, BSL # ''u001b''), (CHR 0x1C, BSL # ''u001c''), (CHR 0x1D, BSL # ''u001d''),
      (CHR 0x1E, BSL # ''u001e''), (CHR 0x1F, BSL # ''u001f'')]"








subsection \<open>Objects that may refer to each other\<close>










subsection \<open>The escaping passes\<close>

text \<open>
  \<open>s.replace(/pat/g, rep)\<close> for a literal pattern: scanning from the left, each match
  is replaced and the scan goes on behind it. With the \<open>i\<close> flag the match ignores the
  case of ASCII letters; the replacement is inserted as written.
\<close>

definition matches_here :: "bool \<Rightarrow> string \<Rightarrow> string \<Rightarrow> bool" where
  "matches_here ci pat s =
     (if ci then prefix pat (map ascii_lower (take (length pat) s)) else prefix pat s)"

function replace_all :: "bool \<Rightarrow> string \<Rightarrow> string \<Rightarrow> string \<Rightarrow> string" where
  "replace_all ci pat rep [] = []"
| "replace_all ci pat rep (c # cs) =
     (if pat \<noteq> [] \<and> matches_here ci pat (c # cs)
      then rep @ replace_all ci pat rep (drop (length pat) (c # cs))
      else c # replace_all ci pat rep cs)"
  by pat_completeness auto
termination
  by (relation "measure (\<lambda>(ci, pat, rep, s). length s)") auto






subsection \<open>JSON.parse\<close>

text \<open>
  A recursive-descent reader of the JSON grammar. \<open>num\<close> reads a number token
  (\<open>StringToNumber\<close> after the grammar check, which yields the negative zero for the
  token \<open>-0\<close>), a parameter as \<open>fmt\<close> is. \<open>None\<close> is a
  \<open>SyntaxError\<close>; the nesting is counted down from twice the length of the text. An
  escape \<open>\uXXXX\<close> above U+00FF is outside the character range of the model and is
  refused.
\<close>

definition is_json_ws :: "char \<Rightarrow> bool" where
  "is_json_ws c = (c \<in> set [CHR 0x20, CHR 0x09, CHR 0x0A, CHR 0x0D])"

definition skip_ws :: "string \<Rightarrow> string" where
  "skip_ws s = dropWhile is_json_ws s"

definition is_num_char :: "char \<Rightarrow> bool" where
  "is_num_char c = (c \<in> set ''-+.eE0123456789'')"

definition simple_escapes :: "(char \<times> char) list" where
  "simple_escapes =
     [(DQ, DQ), (BSL, BSL), (CHR ''/'', CHR ''/''), (CHR ''b'', CHR 0x08), (CHR ''f'', CHR 0x0C),
      (CHR ''n'', CHR 0x0A), (CHR ''r'', CHR 0x0D), (CHR ''t'', CHR 0x09)]"

definition hex_digit :: "char \<Rightarrow> nat option" where
  "hex_digit c = map_of (zip ''0123456789abcdefABCDEF''
                    [0, 1, 2, 3, 4, 5, 6, 7, 8, 9, 10, 11, 12, 13, 14, 15, 10, 11, 12, 13, 14, 15]) c"

definition hex4 :: "char \<Rightarrow> char \<Rightarrow> char \<Rightarrow> char \<Rightarrow> nat option" where
  "hex4 a b c d =
     (case (hex_digit a, hex_digit b, hex_digit c, hex_digit d) of
        (Some w, Some x, Some y, Some z) \<Rightarrow> Some (((w * 16 + x) * 16 + y) * 16 + z)
      | _ \<Rightarrow> None)"

definition is_control :: "char \<Rightarrow> bool" where
  "is_control c = (c \<in> fst ` set control_escapes)"

text \<open>The characters of a string after its opening quote, up to the closing one.\<close>

fun parse_string_body :: "string \<Rightarrow> (string \<times> string) option" where
  "parse_string_body [] = None"
| "parse_string_body (c # cs) =
     (if c = DQ then Some ([], cs)
      else if c = BSL then
        (case cs of
           [] \<Rightarrow> None
         | e # r \<Rightarrow>
             if e = CHR ''u'' then
               (case r of
                  h1 # h2 # h3 # h4 # r' \<Rightarrow>
                    (case hex4 h1 h2 h3 h4 of
                       None \<Rightarrow> None
                     | Some n \<Rightarrow>
                         if n < 256
                         then map_option (apfst ((#) (char_of n))) (parse_string_body r')
                         else None)
                | _ \<Rightarrow> None)
             else
               (case map_of simple_escapes e of
                  None \<Rightarrow> None
                | Some d \<Rightarrow> map_option (apfst ((#) d)) (parse_string_body r)))
      else if is_control c then None
      else map_option (apfst ((#) c)) (parse_string_body cs))"









fun no_num_start :: "string \<Rightarrow> bool" where
  "no_num_start [] = True"
| "no_num_start (c # cs) = (\<not> is_num_char c)"




text \<open>
  The fourth pass alone, and the texts it changes for good: a text in which
  \<open></script>\<close> stands with a letter in upper case, which the pass rewrites in lower
  case.
\<close>

definition escape_script :: "string \<Rightarrow> string" where
  "escape_script s = replace_all True ''</script>'' (''<'' @ [BSL] @ ''/script>'') s"










section \<open>Properties of the merge\<close>

lemma normalizeUrlPattern_identity: "normalizeUrlPattern (urlPattern r) = identity_of r"
  by (cases "urlPattern r") (simp_all add: identity_of_def)

lemma overridden_iff:
  "overridden custom d \<longleftrightarrow>
     normalizeUrlPattern (urlPattern d)
       \<in> set (map (\<lambda>rule. normalizeUrlPattern (urlPattern rule)) custom)"
  by (simp add: overridden_def normalizeUrlPattern_identity image_iff) metis

lemma surviving_defaults_filter:
  "surviving_defaults custom ds = filter (\<lambda>d. \<not> overridden custom d) ds"
  by (induction ds) auto

lemma length_surviving_defaults:
  "length (surviving_defaults custom ds) = count_not_overridden custom ds"
  by (induction ds) auto

lemma mergeRuntimeCaching_unfold:
  "mergeRuntimeCaching custom defaults = custom @ surviving_defaults custom defaults"
  unfolding mergeRuntimeCaching_def Let_def surviving_defaults_filter overridden_iff ..

text \<open>
  C2. The identity the code compares is the one the specification spells out: a string
  pattern as it is, the source of a compiled pattern, the textual form of a function.
  The merged list is \<open>custom\<close>, in its order, followed by the defaults whose identity is
  the identity of no custom rule, in the defaults' order; its length is
  \<open>custom.length\<close> plus the number of defaults not overridden. The model is a pure
  function of its two arguments, as the source is: \<open>map\<close>, \<open>filter\<close> and the spread
  build new arrays and assign to neither input.
\<close>

theorem mergeRuntimeCaching_custom_then_surviving_defaults:
  "normalizeUrlPattern (PatString s) = s
   \<and> normalizeUrlPattern (PatRegExp src flags) = src
   \<and> normalizeUrlPattern (PatFunction text) = text
   \<and> identity_of \<lparr>urlPattern = PatString s, handler = hn, cacheName = cn\<rparr> = s
   \<and> identity_of \<lparr>urlPattern = PatRegExp src flags, handler = hn, cacheName = cn\<rparr> = src
   \<and> identity_of \<lparr>urlPattern = PatFunction text, handler = hn, cacheName = cn\<rparr> = text
   \<and> mergeRuntimeCaching custom defaults
       = custom @ filter (\<lambda>d. identity_of d \<notin> set (map identity_of custom)) defaults
   \<and> mergeRuntimeCaching custom defaults = custom @ surviving_defaults custom defaults
   \<and> take (length custom) (mergeRuntimeCaching custom defaults) = custom
   \<and> drop (length custom) (mergeRuntimeCaching custom defaults)
       = filter (\<lambda>d. \<not> overridden custom d) defaults
   \<and> length (mergeRuntimeCaching custom defaults)
       = length custom + count_not_overridden custom defaults"
proof -
  let ?m = "mergeRuntimeCaching custom defaults"
  have i: "identity_of \<lparr>urlPattern = PatString s, handler = hn, cacheName = cn\<rparr> = s"
    "identity_of \<lparr>urlPattern = PatRegExp src flags, handler = hn, cacheName = cn\<rparr> = src"
    "identity_of \<lparr>urlPattern = PatFunction text, handler = hn, cacheName = cn\<rparr> = text"
    by (simp_all add: identity_of_def)
  have f: "?m = custom @ filter (\<lambda>d. identity_of d \<notin> set (map identity_of custom)) defaults"
    by (simp add: mergeRuntimeCaching_def normalizeUrlPattern_identity)
  have m: "?m = custom @ surviving_defaults custom defaults"
    by (rule mergeRuntimeCaching_unfold)
  have t: "take (length custom) ?m = custom"
    by (simp add: m)
  have d: "drop (length custom) ?m = filter (\<lambda>d. \<not> overridden custom d) defaults"
    by (simp add: m surviving_defaults_filter)
  have l: "length ?m = length custom + count_not_overridden custom defaults"
    by (simp add: m length_surviving_defaults)
  from i f m t d l show ?thesis
    by simp
qed

text \<open>
  The merge on rules of the three kinds. The custom string rule overrides the default
  of the same string, the custom function rule the default with the same function
  text, the compiled pattern \<open>/.*/\<close> the catch-all default; the default for static
  files stays. The compiled pattern for the paths below \<open>/api/\<close> has another source than
  the default's string and overrides nothing.
\<close>

theorem mergeRuntimeCaching_custom_then_surviving_defaults_witness:
  "mergeRuntimeCaching [custom_api_rule, custom_images_rule, custom_any_regexp_rule]
     [default_images_rule, default_api_rule, default_static_files_rule, default_catch_all_rule]
     = [custom_api_rule, custom_images_rule, custom_any_regexp_rule, default_static_files_rule]
   \<and> length (mergeRuntimeCaching [custom_api_rule, custom_images_rule, custom_any_regexp_rule]
        [default_images_rule, default_api_rule, default_static_files_rule,
         default_catch_all_rule]) = 3 + 1
   \<and> mergeRuntimeCaching [custom_regexp_api_rule] [default_api_rule, default_catch_all_rule]
       = [custom_regexp_api_rule, default_api_rule, default_catch_all_rule]
   \<and> identity_of custom_regexp_api_rule \<noteq> identity_of default_api_rule
   \<and> identity_of custom_images_rule = image_matcher_text
   \<and> identity_of custom_any_regexp_rule = ''.*''"
proof -
  let ?custom = "[custom_api_rule, custom_images_rule, custom_any_regexp_rule]"
  let ?defaults = "[default_images_rule, default_api_rule, default_static_files_rule,
                    default_catch_all_rule]"
  have ids: "identity_of custom_api_rule = ''^/api/.*''"
    "identity_of custom_images_rule = image_matcher_text"
    "identity_of custom_any_regexp_rule = ''.*''"
    "identity_of default_images_rule = image_matcher_text"
    "identity_of default_api_rule = ''^/api/.*''"
    "identity_of default_static_files_rule = [CHR 0x5C] @ ''.(ico|png|svg|txt|woff2?)$''"
    "identity_of default_catch_all_rule = ''.*''"
    "identity_of custom_regexp_api_rule = ''^'' @ [CHR 0x5C] @ ''/api'' @ [CHR 0x5C] @ ''/.*''"
    by (simp_all add: identity_of_def custom_api_rule_def custom_images_rule_def
        custom_any_regexp_rule_def default_images_rule_def default_api_rule_def
        default_static_files_rule_def default_catch_all_rule_def custom_regexp_api_rule_def)
  have txt_ne: "image_matcher_text \<noteq> ''^/api/.*''" "image_matcher_text \<noteq> ''.*''"
    "image_matcher_text \<noteq> [CHR 0x5C] @ ''.(ico|png|svg|txt|woff2?)$''"
    by (simp_all add: image_matcher_text_def)
  have a: "filter (\<lambda>d. identity_of d \<notin> set (map identity_of ?custom)) ?defaults
             = [default_static_files_rule]"
    using txt_ne by (simp add: ids)
  have b: "filter (\<lambda>d. identity_of d \<notin> set (map identity_of [custom_regexp_api_rule]))
             [default_api_rule, default_catch_all_rule]
             = [default_api_rule, default_catch_all_rule]"
    by (simp add: ids)
  have c: "count_not_overridden ?custom ?defaults = 1"
    using txt_ne by (simp add: overridden_def ids)
  from a b c ids
    mergeRuntimeCaching_custom_then_surviving_defaults [where custom = ?custom and defaults = ?defaults]
    mergeRuntimeCaching_custom_then_surviving_defaults
      [where custom = "[custom_regexp_api_rule]"
         and defaults = "[default_api_rule, default_catch_all_rule]"]
  show ?thesis
    by simp
qed

text \<open>
  C7, as stated, fails: the merge filters the defaults against the custom rules and
  does nothing else, so two custom rules written for one pattern both stay, and so do
  two defaults with one pattern that no custom rule overrides.
\<close>

theorem mergeRuntimeCaching_shared_identity_counterexample:
  "mergeRuntimeCaching [custom_api_rule, custom_api_network_only_rule]
     [default_api_rule, default_catch_all_rule]
     = [custom_api_rule, custom_api_network_only_rule, default_catch_all_rule]
   \<and> identity_of custom_api_rule = identity_of custom_api_network_only_rule
   \<and> custom_api_rule \<noteq> custom_api_network_only_rule
   \<and> \<not> distinct (map identity_of
         (mergeRuntimeCaching [custom_api_rule, custom_api_network_only_rule]
            [default_api_rule, default_catch_all_rule]))
   \<and> \<not> distinct (map identity_of
         (mergeRuntimeCaching [] [default_catch_all_rule, default_catch_all_rule]))"
  by (simp add: mergeRuntimeCaching_def custom_api_rule_def custom_api_network_only_rule_def
      default_api_rule_def default_catch_all_rule_def identity_of_def)

lemma identity_surviving_defaults:
  "set (map identity_of custom) \<inter> set (map identity_of (surviving_defaults custom ds)) = {}"
  by (induction ds) (auto simp: overridden_def)

text \<open>
  C7, amended. No two elements of the merged list share an identity exactly when the
  identities are pairwise distinct within \<open>custom\<close> and pairwise distinct among the
  defaults that no custom rule overrides.
\<close>

theorem mergeRuntimeCaching_distinct_identities:
  "distinct (map identity_of (mergeRuntimeCaching custom defaults))
   \<longleftrightarrow> distinct (map identity_of custom)
       \<and> distinct (map identity_of (filter (\<lambda>d. \<not> overridden custom d) defaults))"
  using identity_surviving_defaults [of custom defaults]
  by (simp add: mergeRuntimeCaching_unfold surviving_defaults_filter)

text \<open>
  One custom rule against defaults that repeat the pattern it overrides: both copies
  go, and the merged list has pairwise distinct identities.
\<close>

theorem mergeRuntimeCaching_distinct_identities_witness:
  "distinct (map identity_of [custom_api_rule])
   \<and> \<not> distinct (map identity_of [default_api_rule, default_catch_all_rule, default_api_rule])
   \<and> filter (\<lambda>d. \<not> overridden [custom_api_rule] d)
        [default_api_rule, default_catch_all_rule, default_api_rule]
       = [default_catch_all_rule]
   \<and> distinct (map identity_of
        (mergeRuntimeCaching [custom_api_rule]
           [default_api_rule, default_catch_all_rule, default_api_rule]))
   \<and> mergeRuntimeCaching [custom_api_rule]
        [default_api_rule, default_catch_all_rule, default_api_rule]
       = [custom_api_rule, default_catch_all_rule]"
proof -
  let ?defaults = "[default_api_rule, default_catch_all_rule, default_api_rule]"
  have c: "distinct (map identity_of [custom_api_rule])"
    by simp
  have n: "\<not> distinct (map identity_of ?defaults)"
    by simp
  have f: "filter (\<lambda>d. \<not> overridden [custom_api_rule] d) ?defaults = [default_catch_all_rule]"
    by (simp add: overridden_def identity_of_def custom_api_rule_def default_api_rule_def
        default_catch_all_rule_def)
  have m: "mergeRuntimeCaching [custom_api_rule] ?defaults
             = [custom_api_rule, default_catch_all_rule]"
    by (simp add: mergeRuntimeCaching_def custom_api_rule_def default_api_rule_def
        default_catch_all_rule_def)
  have d: "distinct (map identity_of (mergeRuntimeCaching [custom_api_rule] ?defaults))"
    using mergeRuntimeCaching_distinct_identities [of "[custom_api_rule]" ?defaults] c f
    by simp
  from c n f d m show ?thesis
    by blast
qed

section \<open>Properties of the rule sanitizer\<close>

lemma sanitizedExpiration_keys:
  "only_keys [''maxEntries'', ''maxAgeSeconds''] (sanitizedExpiration_of e)"
  by (simp add: sanitizedExpiration_of_def only_keys_def Let_def)

lemma sanitizedOptions_keys:
  "only_keys [''cacheName'', ''expiration'', ''networkTimeoutSeconds'']
     (sanitizedOptions_of opts)"
  by (simp add: sanitizedOptions_of_def only_keys_def Let_def split: js_value.splits)

lemma sanitizedOptions_expiration:
  "get_prop (sanitizedOptions_of opts) ''expiration'' = JUndefined
   \<or> only_keys [''maxEntries'', ''maxAgeSeconds'']
        (get_prop (sanitizedOptions_of opts) ''expiration'')"
  using sanitizedExpiration_keys [of "get_prop opts ''expiration''"]
  by (simp add: sanitizedOptions_of_def Let_def split: js_value.splits)

lemma sanitize_result_allow_listed:
  "sanitizeRuntimeCachingRule rule = Some out \<Longrightarrow> allow_listed_result out"
  using sanitizedOptions_keys [of "get_prop rule ''options''"]
        sanitizedOptions_expiration [of "get_prop rule ''options''"]
  unfolding sanitizeRuntimeCachingRule_def allow_listed_result_def
  by (auto simp: Let_def only_keys_def split: if_splits option.splits js_value.splits)

lemma sanitize_rejects_non_object:
  "rule = JNull \<or> typeof rule \<noteq> TObject \<Longrightarrow> sanitizeRuntimeCachingRule rule = None"
  by (simp add: sanitizeRuntimeCachingRule_def)

lemma sanitize_rejects_other_handler:
  "\<forall>h \<in> set ALLOWED_HANDLERS. get_prop rule ''handler'' \<noteq> JString h
   \<Longrightarrow> sanitizeRuntimeCachingRule rule = None"
  by (auto simp: sanitizeRuntimeCachingRule_def Let_def split: option.splits js_value.splits)

text \<open>
  C5. A non-null result of \<open>sanitizeRuntimeCachingRule\<close> has only allow-listed keys
  (at the top, in \<open>options\<close> and in \<open>options.expiration\<close>) and a handler among the
  five allowed names; a candidate that is \<open>null\<close> or not an object yields \<open>null\<close>; a
  candidate whose handler is not exactly one of the five names yields \<open>null\<close>.
\<close>

theorem sanitizeRuntimeCachingRule_allow_list:
  "(sanitizeRuntimeCachingRule rule = Some out \<longrightarrow> allow_listed_result out)
   \<and> (rule = JNull \<or> typeof rule \<noteq> TObject \<longrightarrow> sanitizeRuntimeCachingRule rule = None)
   \<and> ((\<forall>h \<in> set ALLOWED_HANDLERS. get_prop rule ''handler'' \<noteq> JString h)
        \<longrightarrow> sanitizeRuntimeCachingRule rule = None)"
  using sanitize_result_allow_listed [of rule out] sanitize_rejects_non_object [of rule]
    sanitize_rejects_other_handler [of rule]
  by blast

theorem sanitizeRuntimeCachingRule_allow_list_witness:
  "sanitizeRuntimeCachingRule rule_with_options
     = Some (JObject [(''urlPattern'', JString ''^/api/.*''),
                      (''handler'', JString ''NetworkFirst''),
                      (''options'',
                         JObject [(''cacheName'', JString ''my-cache''),
                                  (''expiration'',
                                     JObject [(''maxEntries'', JNumber (JFinite 50))])])])
   \<and> allow_listed_result
        (JObject [(''urlPattern'', JString ''^/api/.*''),
                  (''handler'', JString ''NetworkFirst''),
                  (''options'',
                     JObject [(''cacheName'', JString ''my-cache''),
                              (''expiration'',
                                 JObject [(''maxEntries'', JNumber (JFinite 50))])])])
   \<and> typeof (JString ''NetworkFirst'') \<noteq> TObject
   \<and> sanitizeRuntimeCachingRule (JString ''NetworkFirst'') = None
   \<and> get_prop rule_lowercase_handler ''handler'' = JString ''cachefirst''
   \<and> ''cachefirst'' \<notin> set ALLOWED_HANDLERS
   \<and> sanitizeRuntimeCachingRule rule_lowercase_handler = None"
proof -
  let ?out = "JObject [(''urlPattern'', JString ''^/api/.*''),
                      (''handler'', JString ''NetworkFirst''),
                      (''options'',
                         JObject [(''cacheName'', JString ''my-cache''),
                                  (''expiration'',
                                     JObject [(''maxEntries'', JNumber (JFinite 50))])])]"
  have a: "sanitizeRuntimeCachingRule rule_with_options = Some ?out"
    by (simp add: rule_with_options_def sanitizeRuntimeCachingRule_def sanitizedOptions_of_def
        sanitizedExpiration_of_def ALLOWED_HANDLERS_def cacheName_pattern_test_def
        is_alnum_def Let_def)
  have b: "typeof (JString ''NetworkFirst'') \<noteq> TObject"
    by simp
  have c: "\<forall>h \<in> set ALLOWED_HANDLERS. get_prop rule_lowercase_handler ''handler'' \<noteq> JString h"
    by (simp add: ALLOWED_HANDLERS_def rule_lowercase_handler_def)
  have d: "get_prop rule_lowercase_handler ''handler'' = JString ''cachefirst''"
    and e: "''cachefirst'' \<notin> set ALLOWED_HANDLERS"
    by (simp_all add: ALLOWED_HANDLERS_def rule_lowercase_handler_def)
  from a b c d e
    sanitizeRuntimeCachingRule_allow_list [of rule_with_options ?out]
    sanitizeRuntimeCachingRule_allow_list [of "JString ''NetworkFirst''" ?out]
    sanitizeRuntimeCachingRule_allow_list [of rule_lowercase_handler ?out]
  show ?thesis by blast
qed

text \<open>
  C8, as stated, fails: a compiled pattern is serialized with \<open>toString()\<close>, which
  wraps the source in slashes and appends the flags. The pattern \<open>/abc/\<close> has source
  \<open>abc\<close> and is returned as \<open>/abc/\<close>.
\<close>

theorem sanitizeRuntimeCachingRule_regexp_source_counterexample:
  "get_prop rule_regexp ''urlPattern'' = JRegExp ''abc'' []
   \<and> sanitizeRuntimeCachingRule rule_regexp
       = Some (JObject [(''urlPattern'', JString ''/abc/''),
                        (''handler'', JString ''CacheFirst'')])
   \<and> JString ''/abc/'' \<noteq> JString ''abc''"
  by (simp add: rule_regexp_def sanitizeRuntimeCachingRule_def ALLOWED_HANDLERS_def
      regexp_toString_def)

text \<open>
  C8, amended. For every candidate whose \<open>urlPattern\<close> is a compiled pattern, the
  non-null result has a \<open>urlPattern\<close> equal to the pattern's \<open>toString()\<close> text: a
  slash, the source, a slash, the flags.
\<close>

theorem sanitizeRuntimeCachingRule_regexp_toString:
  assumes "get_prop rule ''urlPattern'' = JRegExp src flags"
    and "sanitizeRuntimeCachingRule rule = Some out"
  shows "get_prop out ''urlPattern'' = JString (''/'' @ src @ ''/'' @ flags)"
  using assms
  by (auto simp: sanitizeRuntimeCachingRule_def regexp_toString_def Let_def
      split: if_splits js_value.splits)

theorem sanitizeRuntimeCachingRule_regexp_toString_witness:
  "get_prop rule_regexp_nul ''urlPattern'' = JRegExp [CHR ''a'', NUL, CHR ''b''] ''i''
   \<and> sanitizeRuntimeCachingRule rule_regexp_nul
       = Some (JObject [(''urlPattern'', JString ([CHR ''/'', CHR ''a'', NUL, CHR ''b''] @ ''/i'')),
                        (''handler'', JString ''CacheOnly'')])
   \<and> get_prop (JObject [(''urlPattern'', JString ([CHR ''/'', CHR ''a'', NUL, CHR ''b''] @ ''/i'')),
                        (''handler'', JString ''CacheOnly'')]) ''urlPattern''
       = JString (''/'' @ [CHR ''a'', NUL, CHR ''b''] @ ''/'' @ ''i'')"
proof -
  have a: "get_prop rule_regexp_nul ''urlPattern'' = JRegExp [CHR ''a'', NUL, CHR ''b''] ''i''"
    by (simp add: rule_regexp_nul_def)
  have b: "sanitizeRuntimeCachingRule rule_regexp_nul
       = Some (JObject [(''urlPattern'', JString ([CHR ''/'', CHR ''a'', NUL, CHR ''b''] @ ''/i'')),
                        (''handler'', JString ''CacheOnly'')])"
    by (simp add: rule_regexp_nul_def sanitizeRuntimeCachingRule_def ALLOWED_HANDLERS_def
        regexp_toString_def)
  from a b sanitizeRuntimeCachingRule_regexp_toString [OF a b] show ?thesis
    by blast
qed

text \<open>
  C10. The NUL check guards the string branch only: a string pattern with a NUL byte
  is rejected, while some candidate with a compiled pattern whose source holds a NUL
  byte and with an allow-listed handler is accepted, and the NUL byte is in the
  returned \<open>urlPattern\<close>.
\<close>

theorem sanitizeRuntimeCachingRule_regexp_keeps_nul:
  "sanitizeRuntimeCachingRule
     (JObject [(''urlPattern'', JString [CHR ''a'', NUL, CHR ''b'']),
               (''handler'', JString ''CacheOnly'')]) = None
   \<and> (\<exists>rule src flags h pat out.
         get_prop rule ''urlPattern'' = JRegExp src flags \<and> NUL \<in> set src
         \<and> get_prop rule ''handler'' = JString h \<and> h \<in> set ALLOWED_HANDLERS
         \<and> sanitizeRuntimeCachingRule rule = Some out
         \<and> get_prop out ''urlPattern'' = JString pat \<and> NUL \<in> set pat)"
proof -
  have s: "sanitizeRuntimeCachingRule
     (JObject [(''urlPattern'', JString [CHR ''a'', NUL, CHR ''b'']),
               (''handler'', JString ''CacheOnly'')]) = None"
    by (simp add: sanitizeRuntimeCachingRule_def)
  let ?out = "JObject [(''urlPattern'', JString ([CHR ''/'', CHR ''a'', NUL, CHR ''b''] @ ''/i'')),
                       (''handler'', JString ''CacheOnly'')]"
  have "get_prop rule_regexp_nul ''urlPattern'' = JRegExp [CHR ''a'', NUL, CHR ''b''] ''i''"
    and "NUL \<in> set [CHR ''a'', NUL, CHR ''b'']"
    and "get_prop rule_regexp_nul ''handler'' = JString ''CacheOnly''"
    and "''CacheOnly'' \<in> set ALLOWED_HANDLERS"
    and "sanitizeRuntimeCachingRule rule_regexp_nul = Some ?out"
    and "get_prop ?out ''urlPattern'' = JString ([CHR ''/'', CHR ''a'', NUL, CHR ''b''] @ ''/i'')"
    and "NUL \<in> set ([CHR ''/'', CHR ''a'', NUL, CHR ''b''] @ ''/i'')"
    by (simp_all add: rule_regexp_nul_def sanitizeRuntimeCachingRule_def ALLOWED_HANDLERS_def
        regexp_toString_def)
  then have "\<exists>rule src flags h pat out.
         get_prop rule ''urlPattern'' = JRegExp src flags \<and> NUL \<in> set src
         \<and> get_prop rule ''handler'' = JString h \<and> h \<in> set ALLOWED_HANDLERS
         \<and> sanitizeRuntimeCachingRule rule = Some out
         \<and> get_prop out ''urlPattern'' = JString pat \<and> NUL \<in> set pat"
    by blast
  with s show ?thesis by blast
qed

section \<open>Properties of path sanitization\<close>

subsection \<open>Substrings and first characters\<close>

lemma str_includes_sublist: "str_includes s sub \<longleftrightarrow> sublist sub s"
  by (induction s) (auto simp: sublist_Cons_right)

lemma str_includes_Cons_pair:
  "str_includes (x # s) [a, b] \<longleftrightarrow> (x = a \<and> prefix [b] s) \<or> str_includes s [a, b]"
  by (cases s) auto

lemma str_includes_dropWhile: "str_includes (dropWhile P s) sub \<Longrightarrow> str_includes s sub"
  unfolding str_includes_sublist
  by (metis sublist_order.order.trans suffix_dropWhile suffix_imp_sublist)

lemma str_includes_strip_leading:
  "str_includes (strip_leading_slashes s) sub \<Longrightarrow> str_includes s sub"
  unfolding strip_leading_slashes_def by (rule str_includes_dropWhile)

lemma prefix_strip_trailing: "prefix (strip_trailing_slashes s) s"
proof -
  have "suffix (dropWhile is_slash (rev s)) (rev s)"
    by (rule suffix_dropWhile)
  then have "prefix (rev (dropWhile is_slash (rev s))) (rev (rev s))"
    by (simp only: suffix_to_prefix)
  then show ?thesis
    by (simp add: strip_trailing_slashes_def)
qed

lemma str_includes_strip_trailing:
  "str_includes (strip_trailing_slashes s) sub \<Longrightarrow> str_includes s sub"
  unfolding str_includes_sublist
  using prefix_strip_trailing [of s]
  by (meson prefix_imp_sublist sublist_order.order.trans)

lemma first_dropWhile_slash: "\<not> prefix ''/'' (dropWhile is_slash s)"
  by (induction s) auto

lemma first_strip_leading: "\<not> prefix ''/'' (strip_leading_slashes s)"
  unfolding strip_leading_slashes_def by (rule first_dropWhile_slash)

lemma first_strip_trailing: "prefix [c] (strip_trailing_slashes s) \<Longrightarrow> prefix [c] s"
  using prefix_strip_trailing [of s] prefix_order.trans by blast

lemma last_strip_trailing: "\<not> prefix ''/'' (rev (strip_trailing_slashes s))"
  by (simp add: strip_trailing_slashes_def first_dropWhile_slash)

subsection \<open>What each pass leaves behind\<close>

lemma first_remove_dot_slashes:
  "prefix ''/'' (remove_dot_slashes s) \<Longrightarrow> prefix ''/'' s"
proof (induction s rule: remove_dot_slashes.induct)
  case (3 a b cs)
  then show ?case
    using first_dropWhile_slash [of cs] by (auto split: if_splits)
qed simp_all

lemma remove_dot_slashes_no_dot_slash: "\<not> str_includes (remove_dot_slashes s) ''./''"
proof (induction s rule: remove_dot_slashes.induct)
  case (3 a b cs)
  show ?case
  proof (cases "a = CHR ''.'' \<and> b = CHR ''/''")
    case True
    with "3.IH"(1) show ?thesis by simp
  next
    case False
    with "3.IH"(2) first_remove_dot_slashes [of "b # cs"] show ?thesis
      by (auto simp: str_includes_Cons_pair)
  qed
qed simp_all

lemma first_collapse_slashes: "prefix [c] (collapse_slashes s) \<longleftrightarrow> prefix [c] s"
  by (cases s) auto

lemma collapse_slashes_no_double: "\<not> str_includes (collapse_slashes s) ''//''"
proof (induction s rule: collapse_slashes.induct)
  case (2 a cs)
  show ?case
  proof (cases "a = CHR ''/''")
    case True
    with "2.IH"(1) first_dropWhile_slash [of cs] show ?thesis
      by (simp add: str_includes_Cons_pair first_collapse_slashes)
  next
    case False
    with "2.IH"(2) show ?thesis
      by (simp add: str_includes_Cons_pair)
  qed
qed simp

lemma str_includes_collapse_slashes:
  "str_includes (collapse_slashes s) [a, b] \<Longrightarrow> a \<noteq> CHR ''/'' \<Longrightarrow> str_includes s [a, b]"
proof (induction s rule: collapse_slashes.induct)
  case (2 x cs)
  show ?case
  proof (cases "x = CHR ''/''")
    case True
    with "2.prems" have "str_includes (collapse_slashes (dropWhile is_slash cs)) [a, b]"
      by (simp add: str_includes_Cons_pair)
    with True "2.IH"(1) "2.prems"(2) have "str_includes (dropWhile is_slash cs) [a, b]"
      by simp
    then have "str_includes cs [a, b]"
      by (rule str_includes_dropWhile)
    then show ?thesis
      by (simp add: str_includes_Cons_pair)
  next
    case False
    with "2.prems" "2.IH"(2) show ?thesis
      by (auto simp: str_includes_Cons_pair first_collapse_slashes)
  qed
qed simp

lemma first_remove_dotdot:
  "\<not> str_includes s ''./'' \<Longrightarrow> prefix ''/'' (remove_dotdot s) \<Longrightarrow> prefix ''/'' s"
proof (induction s rule: remove_dotdot.induct)
  case (3 a b cs)
  show ?case
  proof (cases "a = CHR ''.'' \<and> b = CHR ''.''")
    case True
    with "3.prems" have n: "\<not> str_includes cs ''./''" and p: "prefix ''/'' (remove_dotdot cs)"
      by (auto simp: str_includes_Cons_pair)
    from True "3.IH"(1) n p have "prefix ''/'' cs" by simp
    with True "3.prems"(1) show ?thesis
      by (auto simp: str_includes_Cons_pair)
  next
    case False
    with "3.prems"(2) show ?thesis by auto
  qed
qed simp_all

lemma remove_dotdot_no_dot_slash:
  "\<not> str_includes s ''./'' \<Longrightarrow> \<not> str_includes (remove_dotdot s) ''./''"
proof (induction s rule: remove_dotdot.induct)
  case (3 a b cs)
  from "3.prems" have nb: "\<not> str_includes (b # cs) ''./''" and nc: "\<not> str_includes cs ''./''"
    by (auto simp: str_includes_Cons_pair)
  show ?case
  proof (cases "a = CHR ''.'' \<and> b = CHR ''.''")
    case True
    with "3.IH"(1) nc show ?thesis by simp
  next
    case False
    have "\<not> (a = CHR ''.'' \<and> prefix ''/'' (remove_dotdot (b # cs)))"
    proof
      assume h: "a = CHR ''.'' \<and> prefix ''/'' (remove_dotdot (b # cs))"
      with nb have "prefix ''/'' (b # cs)"
        using first_remove_dotdot by blast
      with h "3.prems" show False
        by (auto simp: str_includes_Cons_pair)
    qed
    with False "3.IH"(2) nb show ?thesis
      by (auto simp: str_includes_Cons_pair)
  qed
qed simp_all

lemma strip_all_dotdot_no_dotdot: "\<not> str_includes (strip_all_dotdot s) ''..''"
  by (induction s rule: strip_all_dotdot.induct) (subst strip_all_dotdot.simps, simp)

lemma strip_all_dotdot_no_dot_slash:
  "\<not> str_includes s ''./'' \<Longrightarrow> \<not> str_includes (strip_all_dotdot s) ''./''"
proof (induction s rule: strip_all_dotdot.induct)
  case (1 s)
  show ?case
  proof (cases "str_includes s ''..''")
    case True
    with "1.IH" "1.prems" have "\<not> str_includes (strip_all_dotdot (remove_dotdot s)) ''./''"
      by (simp add: remove_dotdot_no_dot_slash)
    with True show ?thesis
      by (subst strip_all_dotdot.simps) simp
  next
    case False
    with "1.prems" show ?thesis
      by (subst strip_all_dotdot.simps) simp
  qed
qed

subsection \<open>The passes only delete or rewrite characters\<close>

lemma set_remove_dotdot_sep: "set (remove_dotdot_sep s) \<subseteq> set s"
  by (induction s rule: remove_dotdot_sep.induct) auto

lemma set_remove_dot_slashes: "set (remove_dot_slashes s) \<subseteq> set s"
proof (induction s rule: remove_dot_slashes.induct)
  case (3 a b cs)
  then show ?case
    using set_dropWhileD [of _ is_slash cs] by (auto split: if_splits)
qed simp_all

lemma set_collapse_slashes: "set (collapse_slashes s) \<subseteq> set s"
proof (induction s rule: collapse_slashes.induct)
  case (2 a cs)
  then show ?case
    using set_dropWhileD [of _ is_slash cs] by (auto split: if_splits)
qed simp

lemma set_remove_dotdot: "set (remove_dotdot s) \<subseteq> set s"
  by (induction s rule: remove_dotdot.induct) auto

lemma set_strip_all_dotdot: "set (strip_all_dotdot s) \<subseteq> set s"
proof (induction s rule: strip_all_dotdot.induct)
  case (1 s)
  show ?case
  proof (cases "str_includes s ''..''")
    case True
    with "1.IH" set_remove_dotdot [of s] have "set (strip_all_dotdot (remove_dotdot s)) \<subseteq> set s"
      by blast
    with True show ?thesis
      by (subst strip_all_dotdot.simps) simp
  next
    case False
    then show ?thesis
      by (subst strip_all_dotdot.simps) simp
  qed
qed

lemma set_strip_leading: "set (strip_leading_slashes s) \<subseteq> set s"
  unfolding strip_leading_slashes_def by (auto dest: set_dropWhileD)

lemma set_strip_trailing: "set (strip_trailing_slashes s) \<subseteq> set s"
  unfolding strip_trailing_slashes_def by (auto dest: set_dropWhileD)

lemma set_replace_backslashes: "CHR 0x5C \<notin> set (replace_backslashes s)"
  by (auto simp: replace_backslashes_def)

lemma set_remove_nul: "NUL \<notin> set (remove_nul s)"
  by (simp add: remove_nul_def)

lemma set_remove_nul_subset: "set (remove_nul s) \<subseteq> set s"
  by (auto simp: remove_nul_def)

subsection \<open>Each pass is the identity on a string it has nothing to remove from\<close>

lemma replace_backslashes_id: "CHR 0x5C \<notin> set s \<Longrightarrow> replace_backslashes s = s"
  by (induction s) (auto simp: replace_backslashes_def)

lemma remove_nul_id: "NUL \<notin> set s \<Longrightarrow> remove_nul s = s"
  by (induction s) (auto simp: remove_nul_def)

lemma remove_dotdot_sep_id: "\<not> str_includes s ''..'' \<Longrightarrow> remove_dotdot_sep s = s"
  by (induction s rule: remove_dotdot_sep.induct) (auto simp: str_includes_Cons_pair)

lemma remove_dot_slashes_id: "\<not> str_includes s ''./'' \<Longrightarrow> remove_dot_slashes s = s"
  by (induction s rule: remove_dot_slashes.induct) (auto simp: str_includes_Cons_pair)

lemma dropWhile_slash_id: "\<not> prefix ''/'' s \<Longrightarrow> dropWhile is_slash s = s"
  by (cases s) auto

lemma collapse_slashes_id: "\<not> str_includes s ''//'' \<Longrightarrow> collapse_slashes s = s"
proof (induction s rule: collapse_slashes.induct)
  case (2 a cs)
  from "2.prems" have n: "\<not> str_includes cs ''//''"
    by (simp add: str_includes_Cons_pair)
  show ?case
  proof (cases "a = CHR ''/''")
    case True
    with "2.prems" have "\<not> prefix ''/'' cs"
      by (simp add: str_includes_Cons_pair)
    then have d: "dropWhile is_slash cs = cs"
      by (rule dropWhile_slash_id)
    with True "2.IH"(1) n show ?thesis by simp
  next
    case False
    with "2.IH"(2) n show ?thesis by simp
  qed
qed simp

lemma strip_leading_slashes_id: "\<not> prefix ''/'' s \<Longrightarrow> strip_leading_slashes s = s"
  unfolding strip_leading_slashes_def by (rule dropWhile_slash_id)

lemma strip_trailing_slashes_id: "\<not> prefix ''/'' (rev s) \<Longrightarrow> strip_trailing_slashes s = s"
  unfolding strip_trailing_slashes_def by (simp add: dropWhile_slash_id)

lemma strip_all_dotdot_id: "\<not> str_includes s ''..'' \<Longrightarrow> strip_all_dotdot s = s"
  by (subst strip_all_dotdot.simps) simp

subsection \<open>The result is in normal form, and normal forms are fixed\<close>

lemma collapse_slashes_no_dotdot:
  "\<not> str_includes s ''..'' \<Longrightarrow> \<not> str_includes (collapse_slashes s) ''..''"
  using str_includes_collapse_slashes [of s "CHR ''.''" "CHR ''.''"] by auto

lemma collapse_slashes_no_dot_slash:
  "\<not> str_includes s ''./'' \<Longrightarrow> \<not> str_includes (collapse_slashes s) ''./''"
  using str_includes_collapse_slashes [of s "CHR ''.''" "CHR ''/''"] by auto

lemma sanitizePath_normal_form:
  "path_normal_form (sanitizePath v)"
proof (cases v)
  case (JString path)
  define s1 where "s1 = remove_nul (replace_backslashes (trim path))"
  define s2 where "s2 = remove_dot_slashes (remove_dotdot_sep s1)"
  define s3 where "s3 = strip_leading_slashes (collapse_slashes s2)"
  define s4 where "s4 = strip_all_dotdot s3"
  define s5 where "s5 = strip_leading_slashes (collapse_slashes s4)"
  have y: "sanitizePath v = strip_trailing_slashes s5"
    by (simp add: JString Let_def s1_def s2_def s3_def s4_def s5_def)
  have sub: "set (strip_trailing_slashes s5) \<subseteq> set s1"
    using set_strip_trailing [of s5] set_strip_leading [of "collapse_slashes s4"]
      set_collapse_slashes [of s4] set_strip_all_dotdot [of s3]
      set_strip_leading [of "collapse_slashes s2"] set_collapse_slashes [of s2]
      set_remove_dot_slashes [of "remove_dotdot_sep s1"] set_remove_dotdot_sep [of s1]
    unfolding s5_def s4_def s3_def s2_def by blast
  have "CHR 0x5C \<notin> set s1"
    using set_remove_nul_subset [of "replace_backslashes (trim path)"]
      set_replace_backslashes [of "trim path"]
    unfolding s1_def by blast
  with sub have a: "CHR 0x5C \<notin> set (strip_trailing_slashes s5)"
    by blast
  have "NUL \<notin> set s1"
    unfolding s1_def by (rule set_remove_nul)
  with sub have b: "NUL \<notin> set (strip_trailing_slashes s5)"
    by blast
  have "\<not> str_includes s4 ''..''"
    unfolding s4_def by (rule strip_all_dotdot_no_dotdot)
  then have "\<not> str_includes (collapse_slashes s4) ''..''"
    by (rule collapse_slashes_no_dotdot)
  then have c: "\<not> str_includes (strip_trailing_slashes s5) ''..''"
    unfolding s5_def
    using str_includes_strip_trailing str_includes_strip_leading by blast
  have "\<not> str_includes s2 ''./''"
    unfolding s2_def by (rule remove_dot_slashes_no_dot_slash)
  then have "\<not> str_includes (collapse_slashes s2) ''./''"
    by (rule collapse_slashes_no_dot_slash)
  then have "\<not> str_includes s3 ''./''"
    unfolding s3_def using str_includes_strip_leading by blast
  then have "\<not> str_includes s4 ''./''"
    unfolding s4_def by (rule strip_all_dotdot_no_dot_slash)
  then have "\<not> str_includes (collapse_slashes s4) ''./''"
    by (rule collapse_slashes_no_dot_slash)
  then have d: "\<not> str_includes (strip_trailing_slashes s5) ''./''"
    unfolding s5_def
    using str_includes_strip_trailing str_includes_strip_leading by blast
  have e: "\<not> str_includes (strip_trailing_slashes s5) ''//''"
    unfolding s5_def
    using str_includes_strip_trailing str_includes_strip_leading
      collapse_slashes_no_double [of s4]
    by blast
  have "\<not> prefix ''/'' s5"
    unfolding s5_def by (rule first_strip_leading)
  then have f: "\<not> prefix ''/'' (strip_trailing_slashes s5)"
    using first_strip_trailing by blast
  have g: "\<not> prefix ''/'' (rev (strip_trailing_slashes s5))"
    by (rule last_strip_trailing)
  from a b c d e f g show ?thesis
    unfolding y path_normal_form_def by blast
qed (simp_all add: path_normal_form_def)

lemma sanitizePath_fixes_normal_form:
  assumes "path_normal_form y" and "trim y = y"
  shows "sanitizePath (JString y) = y"
proof -
  from assms(1) have a: "CHR 0x5C \<notin> set y" and b: "NUL \<notin> set y"
    and c: "\<not> str_includes y ''..''" and d: "\<not> str_includes y ''./''"
    and e: "\<not> str_includes y ''//''" and f: "\<not> prefix ''/'' y"
    and g: "\<not> prefix ''/'' (rev y)"
    unfolding path_normal_form_def by blast+
  show ?thesis
    by (simp add: Let_def assms(2) replace_backslashes_id [OF a] remove_nul_id [OF b]
        remove_dotdot_sep_id [OF c] remove_dot_slashes_id [OF d] collapse_slashes_id [OF e]
        strip_leading_slashes_id [OF f] strip_all_dotdot_id [OF c]
        strip_trailing_slashes_id [OF g])
qed

subsection \<open>No pass lengthens the string\<close>

lemma length_remove_dotdot_sep: "length (remove_dotdot_sep s) \<le> length s"
  by (induction s rule: remove_dotdot_sep.induct) auto

lemma length_remove_dot_slashes: "length (remove_dot_slashes s) \<le> length s"
proof (induction s rule: remove_dot_slashes.induct)
  case (3 a b cs)
  then show ?case
    using length_dropWhile_le [of is_slash cs] by (auto split: if_splits)
qed simp_all

lemma length_collapse_slashes: "length (collapse_slashes s) \<le> length s"
proof (induction s rule: collapse_slashes.induct)
  case (2 a cs)
  then show ?case
    using length_dropWhile_le [of is_slash cs] by (auto split: if_splits)
qed simp

lemma length_strip_all_dotdot: "length (strip_all_dotdot s) \<le> length s"
proof (induction s rule: strip_all_dotdot.induct)
  case (1 s)
  show ?case
  proof (cases "str_includes s ''..''")
    case True
    with "1.IH" length_remove_dotdot_le [of s]
    have "length (strip_all_dotdot (remove_dotdot s)) \<le> length s"
      by simp
    with True show ?thesis
      by (subst strip_all_dotdot.simps) simp
  next
    case False
    then show ?thesis
      by (subst strip_all_dotdot.simps) simp
  qed
qed

lemma length_strip_leading: "length (strip_leading_slashes s) \<le> length s"
  by (simp add: strip_leading_slashes_def length_dropWhile_le)

lemma length_strip_trailing: "length (strip_trailing_slashes s) \<le> length s"
  using length_dropWhile_le [of is_slash "rev s"] by (simp add: strip_trailing_slashes_def)

lemma length_trim: "length (trim s) \<le> length s"
proof -
  have "length (dropWhile is_js_whitespace (rev (dropWhile is_js_whitespace s)))
          \<le> length (rev (dropWhile is_js_whitespace s))"
    by (rule length_dropWhile_le)
  also have "\<dots> \<le> length s"
    by (simp add: length_dropWhile_le)
  finally show ?thesis
    by (simp add: trim_def)
qed

lemma dropWhile_same_length:
  "length (dropWhile P xs) = length xs \<Longrightarrow> dropWhile P xs = xs"
proof (cases xs)
  case (Cons a l)
  assume "length (dropWhile P xs) = length xs"
  with Cons length_dropWhile_le [of P l] show ?thesis
    by (auto split: if_splits)
qed simp

lemma trim_id_iff_length: "trim s = s \<longleftrightarrow> length (trim s) = length s"
proof
  assume l: "length (trim s) = length s"
  let ?d = "dropWhile is_js_whitespace s"
  have "length (trim s) \<le> length ?d"
    using length_dropWhile_le [of is_js_whitespace "rev ?d"] by (simp add: trim_def)
  with l length_dropWhile_le [of is_js_whitespace s] have "length ?d = length s"
    by simp
  then have d: "?d = s"
    by (rule dropWhile_same_length)
  with l have "length (dropWhile is_js_whitespace (rev s)) = length (rev s)"
    by (simp add: trim_def)
  then have "dropWhile is_js_whitespace (rev s) = rev s"
    by (rule dropWhile_same_length)
  with d show "trim s = s"
    by (simp add: trim_def)
qed simp

lemma length_sanitizePath: "length (sanitizePath (JString s)) \<le> length (trim s)"
proof -
  define s1 where "s1 = remove_nul (replace_backslashes (trim s))"
  define s2 where "s2 = remove_dot_slashes (remove_dotdot_sep s1)"
  define s3 where "s3 = strip_leading_slashes (collapse_slashes s2)"
  define s4 where "s4 = strip_all_dotdot s3"
  define s5 where "s5 = strip_leading_slashes (collapse_slashes s4)"
  have y: "sanitizePath (JString s) = strip_trailing_slashes s5"
    by (simp add: Let_def s1_def s2_def s3_def s4_def s5_def)
  have "length s1 \<le> length (trim s)"
    by (simp add: s1_def remove_nul_def replace_backslashes_def)
  moreover have "length s2 \<le> length s1"
    unfolding s2_def
    using length_remove_dot_slashes [of "remove_dotdot_sep s1"] length_remove_dotdot_sep [of s1]
    by simp
  moreover have "length s3 \<le> length s2"
    unfolding s3_def
    using length_strip_leading [of "collapse_slashes s2"] length_collapse_slashes [of s2]
    by simp
  moreover have "length s4 \<le> length s3"
    unfolding s4_def by (rule length_strip_all_dotdot)
  moreover have "length s5 \<le> length s4"
    unfolding s5_def
    using length_strip_leading [of "collapse_slashes s4"] length_collapse_slashes [of s4]
    by simp
  moreover have "length (strip_trailing_slashes s5) \<le> length s5"
    by (rule length_strip_trailing)
  ultimately show ?thesis
    unfolding y by simp
qed

lemma sanitizePath_twice_iff:
  "sanitizePath (JString (sanitizePath v)) = sanitizePath v
     \<longleftrightarrow> trim (sanitizePath v) = sanitizePath v"
proof
  assume "trim (sanitizePath v) = sanitizePath v"
  with sanitizePath_normal_form [of v] show "sanitizePath (JString (sanitizePath v)) = sanitizePath v"
    by (rule sanitizePath_fixes_normal_form)
next
  assume e: "sanitizePath (JString (sanitizePath v)) = sanitizePath v"
  have "length (sanitizePath (JString (sanitizePath v))) \<le> length (trim (sanitizePath v))"
    by (rule length_sanitizePath)
  then have "length (sanitizePath v) \<le> length (trim (sanitizePath v))"
    by (simp only: e)
  with length_trim [of "sanitizePath v"] show "trim (sanitizePath v) = sanitizePath v"
    by (simp add: trim_id_iff_length)
qed

lemma set_trim: "set (trim s) \<subseteq> set s"
  unfolding trim_def by (auto dest!: set_dropWhileD)

lemma trim_no_whitespace: "\<forall>c \<in> set s. \<not> is_js_whitespace c \<Longrightarrow> trim s = s"
proof -
  assume h: "\<forall>c \<in> set s. \<not> is_js_whitespace c"
  have k: "dropWhile is_js_whitespace xs = xs" if "\<forall>c \<in> set xs. \<not> is_js_whitespace c" for xs
    using that by (cases xs) auto
  from h have "dropWhile is_js_whitespace s = s"
    by (rule k)
  moreover from h have "dropWhile is_js_whitespace (rev s) = rev s"
    by (intro k) simp
  ultimately show ?thesis
    by (simp add: trim_def)
qed

lemma sanitizePath_no_whitespace:
  assumes "\<forall>c \<in> set s. \<not> is_js_whitespace c"
  shows "\<forall>c \<in> set (sanitizePath (JString s)). \<not> is_js_whitespace c"
proof -
  define s0 where "s0 = replace_backslashes (trim s)"
  define s1 where "s1 = remove_nul s0"
  define s2 where "s2 = remove_dot_slashes (remove_dotdot_sep s1)"
  define s3 where "s3 = strip_leading_slashes (collapse_slashes s2)"
  define s4 where "s4 = strip_all_dotdot s3"
  define s5 where "s5 = strip_leading_slashes (collapse_slashes s4)"
  have y: "sanitizePath (JString s) = strip_trailing_slashes s5"
    by (simp add: Let_def s0_def s1_def s2_def s3_def s4_def s5_def)
  have sub: "set (strip_trailing_slashes s5) \<subseteq> set s0"
    using set_strip_trailing [of s5] set_strip_leading [of "collapse_slashes s4"]
      set_collapse_slashes [of s4] set_strip_all_dotdot [of s3]
      set_strip_leading [of "collapse_slashes s2"] set_collapse_slashes [of s2]
      set_remove_dot_slashes [of "remove_dotdot_sep s1"] set_remove_dotdot_sep [of s1]
      set_remove_nul_subset [of s0]
    unfolding s5_def s4_def s3_def s2_def s1_def by blast
  have "\<forall>c \<in> set s0. \<not> is_js_whitespace c"
    using assms set_trim [of s]
    by (auto simp: s0_def replace_backslashes_def is_js_whitespace_def)
  with sub show ?thesis
    unfolding y by blast
qed

text \<open>
  C3, as stated, fails: a space uncovered by the removal of a leading slash is kept, and
  the second application trims it. \<open>sanitizePath("/ a")\<close> is \<open>" a"\<close>, and
  \<open>sanitizePath(" a")\<close> is \<open>"a"\<close>.
\<close>

theorem sanitizePath_not_idempotent_counterexample:
  "sanitizePath (JString ''/ a'') = '' a''
   \<and> sanitizePath (JString (sanitizePath (JString ''/ a''))) = ''a''
   \<and> sanitizePath (JString (sanitizePath (JString ''/ a''))) \<noteq> sanitizePath (JString ''/ a'')"
  by (simp add: Let_def trim_def is_js_whitespace_def replace_backslashes_def remove_nul_def
      strip_leading_slashes_def strip_trailing_slashes_def strip_all_dotdot.simps)

text \<open>
  C3, amended. \<open>sanitizePath(sanitizePath(x))\<close> equals \<open>sanitizePath(x)\<close> exactly when
  \<open>sanitizePath(x)\<close> neither begins nor ends with white space (\<open>trim\<close> leaves it
  unchanged); in particular it does for every string \<open>x\<close> that contains no white
  space character.
\<close>

theorem sanitizePath_idempotent_iff_trimmed:
  "(sanitizePath (JString (sanitizePath v)) = sanitizePath v
      \<longleftrightarrow> trim (sanitizePath v) = sanitizePath v)
   \<and> (list_all (\<lambda>c. \<not> is_js_whitespace c) s
      \<longrightarrow> sanitizePath (JString (sanitizePath (JString s))) = sanitizePath (JString s))"
proof -
  have "sanitizePath (JString (sanitizePath (JString s))) = sanitizePath (JString s)"
    if "list_all (\<lambda>c. \<not> is_js_whitespace c) s"
  proof -
    from that have "\<forall>c \<in> set s. \<not> is_js_whitespace c"
      by (simp add: list_all_iff)
    then have "\<forall>c \<in> set (sanitizePath (JString s)). \<not> is_js_whitespace c"
      by (rule sanitizePath_no_whitespace)
    then have "trim (sanitizePath (JString s)) = sanitizePath (JString s)"
      by (rule trim_no_whitespace)
    then show ?thesis
      by (simp only: sanitizePath_twice_iff)
  qed
  with sanitizePath_twice_iff [of v] show ?thesis
    by blast
qed

theorem sanitizePath_idempotent_iff_trimmed_witness:
  "sanitizePath (JString (''  ..'' @ [CHR 0x5C] @ ''a//b/./c/..  '')) = ''a/b/c''
   \<and> trim ''a/b/c'' = ''a/b/c''
   \<and> sanitizePath (JString ''a/b/c'') = ''a/b/c''
   \<and> list_all (\<lambda>c. \<not> is_js_whitespace c) ''..././../foo''
   \<and> sanitizePath (JString ''..././../foo'') = ''.foo''
   \<and> sanitizePath (JString (sanitizePath (JString ''..././../foo'')))
       = sanitizePath (JString ''..././../foo'')"
proof -
  have a: "sanitizePath (JString (''  ..'' @ [CHR 0x5C] @ ''a//b/./c/..  '')) = ''a/b/c''"
    by (simp add: Let_def trim_def is_js_whitespace_def replace_backslashes_def remove_nul_def
        strip_leading_slashes_def strip_trailing_slashes_def strip_all_dotdot.simps)
  have b: "trim ''a/b/c'' = ''a/b/c''"
    by (simp add: trim_def is_js_whitespace_def)
  have c: "list_all (\<lambda>c. \<not> is_js_whitespace c) ''..././../foo''"
    by (simp add: is_js_whitespace_def)
  have d: "sanitizePath (JString ''..././../foo'') = ''.foo''"
    by (simp add: Let_def trim_def is_js_whitespace_def replace_backslashes_def remove_nul_def
        strip_leading_slashes_def strip_trailing_slashes_def strip_all_dotdot.simps)
  from a b have "sanitizePath (JString ''a/b/c'') = ''a/b/c''"
    using sanitizePath_idempotent_iff_trimmed [of "JString (''  ..'' @ [CHR 0x5C] @ ''a//b/./c/..  '')" "[]"]
    by simp
  moreover from c
  have "sanitizePath (JString (sanitizePath (JString ''..././../foo'')))
       = sanitizePath (JString ''..././../foo'')"
    using sanitizePath_idempotent_iff_trimmed [of JNull "''..././../foo''"] by blast
  ultimately show ?thesis
    using a b c d by blast
qed

section \<open>Properties of the manifest generator\<close>

subsection \<open>Keeping the first candidate of each URL\<close>

lemma first_by_url_append:
  "first_by_url seen (xs @ ys)
     = first_by_url seen xs @ first_by_url (seen @ map url (first_by_url seen xs)) ys"
  by (induction xs arbitrary: seen) auto

lemma first_by_url_urls_fresh:
  "set (map url (first_by_url seen cs)) \<inter> set seen = {}"
proof (induction cs arbitrary: seen)
  case (Cons c cs)
  from Cons [of seen] Cons [of "seen @ [url c]"] show ?case
    by auto
qed simp

lemma first_by_url_distinct: "distinct (map url (first_by_url seen cs))"
proof (induction cs arbitrary: seen)
  case (Cons c cs)
  from Cons [of seen] Cons [of "seen @ [url c]"]
    first_by_url_urls_fresh [of "seen @ [url c]" cs]
  show ?case
    by auto
qed simp

lemma first_by_url_subseq: "subseq (first_by_url seen cs) cs"
  by (induction cs arbitrary: seen) auto

lemma first_by_url_urls:
  "set (map url (first_by_url seen cs)) = set (map url cs) - set seen"
proof (induction cs arbitrary: seen)
  case (Cons c cs)
  from Cons [of seen] Cons [of "seen @ [url c]"] show ?case
    by auto
qed simp

lemma first_by_url_find:
  "e \<in> set (first_by_url seen cs) \<Longrightarrow> find (\<lambda>c. url c = url e) cs = Some e"
proof (induction cs arbitrary: seen)
  case (Cons c cs)
  show ?case
  proof (cases "url c \<in> set seen")
    case True
    with Cons.prems have m: "e \<in> set (first_by_url seen cs)"
      by simp
    with first_by_url_urls [of seen cs] have "url e \<notin> set seen"
      by auto
    with True have "url c \<noteq> url e"
      by auto
    with Cons.IH [OF m] show ?thesis
      by simp
  next
    case False
    with Cons.prems have "e = c \<or> e \<in> set (first_by_url (seen @ [url c]) cs)"
      by auto
    then show ?thesis
    proof
      assume "e = c"
      then show ?thesis by simp
    next
      assume m: "e \<in> set (first_by_url (seen @ [url c]) cs)"
      with first_by_url_urls [of "seen @ [url c]" cs] have "url c \<noteq> url e"
        by auto
      with Cons.IH [OF m] show ?thesis
        by simp
    qed
  qed
qed simp

subsection \<open>Each loop appends the first candidates of its phase\<close>

lemma set_add_fresh: "x \<notin> set s \<Longrightarrow> set_add s x = s @ [x]"
  by (simp add: set_add_def)

lemma process_build_assets_first:
  "entries (process_build_assets pf opts assets st)
     = entries st @ first_by_url (seenUrls st) (List.map_filter (build_candidate pf opts) assets)
   \<and> seenUrls (process_build_assets pf opts assets st)
     = seenUrls st
       @ map url (first_by_url (seenUrls st) (List.map_filter (build_candidate pf opts) assets))"
proof (induction assets arbitrary: st)
  case Nil
  show ?case by simp
next
  case (Cons asset rest)
  show ?case
  proof (cases "build_candidate pf opts asset")
    case None
    then show ?thesis
      using Cons [of st]
      by (auto simp: build_candidate_def Let_def split: if_splits)
  next
    case (Some c)
    show ?thesis
    proof (cases "url c \<in> set (seenUrls st)")
      case True
      with Some show ?thesis
        using Cons [of st]
        by (auto simp: build_candidate_def Let_def split: if_splits)
    next
      case False
      with Some show ?thesis
        by (auto simp: build_candidate_def Let_def set_add_fresh Cons
            generateRevisionHash_def split: if_splits)
    qed
  qed
qed

lemma process_public_files_first:
  "entries (process_public_files pf opts files st)
     = entries st @ first_by_url (seenUrls st) (map (public_candidate pf opts) files)
   \<and> seenUrls (process_public_files pf opts files st)
     = seenUrls st @ map url (first_by_url (seenUrls st) (map (public_candidate pf opts) files))"
proof (induction files arbitrary: st)
  case Nil
  show ?case by simp
next
  case (Cons f rest)
  show ?case
  proof (cases "url (public_candidate pf opts f) \<in> set (seenUrls st)")
    case True
    then show ?thesis
      using Cons [of st] by (auto simp: public_candidate_def Let_def)
  next
    case False
    then show ?thesis
      by (auto simp: public_candidate_def Let_def set_add_fresh Cons generateRevisionHash_def)
  qed
qed

lemma process_additional_entries_first:
  "entries (process_additional_entries opts es st)
     = entries st @ first_by_url (seenUrls st) (List.map_filter (additional_candidate opts) es)
   \<and> seenUrls (process_additional_entries opts es st)
     = seenUrls st
       @ map url (first_by_url (seenUrls st) (List.map_filter (additional_candidate opts) es))"
proof (induction es arbitrary: st)
  case Nil
  show ?case by simp
next
  case (Cons entry rest)
  show ?case
  proof (cases "additional_candidate opts entry")
    case None
    then show ?thesis
      using Cons [of st]
      by (auto simp: additional_candidate_def Let_def
          split: if_splits option.splits)
  next
    case (Some c)
    show ?thesis
    proof (cases "url c \<in> set (seenUrls st)")
      case True
      with Some show ?thesis
        using Cons [of st]
        by (auto simp: additional_candidate_def Let_def
            split: if_splits option.splits)
    next
      case False
      with Some show ?thesis
        by (auto simp: additional_candidate_def Let_def set_add_fresh Cons
            split: if_splits option.splits)
    qed
  qed
qed

subsection \<open>The manifest is the list of first candidates\<close>

lemma generatePrecacheManifest_rejects:
  "\<not> isPathWithinProject pf (buildDir opts) (projectRoot opts)
   \<or> \<not> isPathWithinProject pf (publicDir opts) (projectRoot opts)
   \<Longrightarrow> generatePrecacheManifest pf opts
         = ([], Inl (if \<not> isPathWithinProject pf (buildDir opts) (projectRoot opts)
                     then BuildDirOutsideProject else PublicDirOutsideProject))"
  by (auto simp: generatePrecacheManifest_def)

lemma generatePrecacheManifest_entries:
  assumes "isPathWithinProject pf (buildDir opts) (projectRoot opts)"
    and "isPathWithinProject pf (publicDir opts) (projectRoot opts)"
  shows "snd (generatePrecacheManifest pf opts) = Inr (first_by_url [] (candidate_entries pf opts))"
proof -
  obtain ops1 bm where r1: "readBuildManifest pf (buildDir opts) = (ops1, bm)"
    by fastforce
  obtain ops2 sf where r2: "getStaticBuildFiles pf (buildDir opts) (projectRoot opts) = (ops2, sf)"
    by fastforce
  obtain ops3 pfs where
    r3: "getPublicFiles pf (publicDir opts) (projectRoot opts) (publicExcludes opts) = (ops3, pfs)"
    by fastforce
  define b where "b = List.map_filter (build_candidate pf opts) (build_assets_of pf opts)"
  define p where "p = map (public_candidate pf opts) pfs"
  define a where "a = List.map_filter (additional_candidate opts) (additionalManifestEntries opts)"
  define st1 where
    "st1 = process_build_assets pf opts (build_assets_of pf opts)
             \<lparr>entries = [], seenUrls = [], io_log = ops1 @ ops2\<rparr>"
  define st2 where "st2 = process_public_files pf opts pfs (st1\<lparr>io_log := io_log st1 @ ops3\<rparr>)"
  define st3 where "st3 = process_additional_entries opts (additionalManifestEntries opts) st2"
  have g: "snd (generatePrecacheManifest pf opts) = Inr (entries st3)"
    using assms r1 r2 r3
    by (simp add: generatePrecacheManifest_def Let_def st1_def st2_def st3_def build_assets_of_def)
  have e1: "entries st1 = first_by_url [] b" and s1: "seenUrls st1 = map url (first_by_url [] b)"
    using process_build_assets_first
      [of pf opts "build_assets_of pf opts" "\<lparr>entries = [], seenUrls = [], io_log = ops1 @ ops2\<rparr>"]
    by (simp_all add: st1_def b_def)
  have e2: "entries st2 = entries st1 @ first_by_url (seenUrls st1) p"
    and s2: "seenUrls st2 = seenUrls st1 @ map url (first_by_url (seenUrls st1) p)"
    using process_public_files_first [of pf opts pfs "st1\<lparr>io_log := io_log st1 @ ops3\<rparr>"]
    by (simp_all add: st2_def p_def)
  have e3: "entries st3 = entries st2 @ first_by_url (seenUrls st2) a"
    using process_additional_entries_first [of opts "additionalManifestEntries opts" st2]
    by (simp add: st3_def a_def)
  have c: "candidate_entries pf opts = b @ p @ a"
    by (simp add: candidate_entries_def b_def p_def a_def r3)
  have "entries st3 = first_by_url [] (b @ p @ a)"
    by (simp add: e3 e2 s2 e1 s1 first_by_url_append)
  with g c show ?thesis
    by simp
qed

text \<open>
  C1. Whenever \<open>generatePrecacheManifest\<close> succeeds, the URLs of its entries are
  pairwise distinct, and the manifest is the list of candidates (build assets, then
  public files, then additional entries, each with its final URL) in which every
  candidate whose URL an earlier candidate has is left out: the entry of a URL is the
  first candidate with that URL, and the entries stand in the candidates' order.
\<close>

theorem generatePrecacheManifest_distinct_first_wins:
  assumes "generatePrecacheManifest pf opts = (ops, Inr es)"
  shows "distinct (map url es)
         \<and> es = first_by_url [] (candidate_entries pf opts)
         \<and> subseq es (candidate_entries pf opts)
         \<and> set (map url es) = set (map url (candidate_entries pf opts))
         \<and> (\<forall>e \<in> set es. find (\<lambda>c. url c = url e) (candidate_entries pf opts) = Some e)"
proof -
  have w: "isPathWithinProject pf (buildDir opts) (projectRoot opts)
           \<and> isPathWithinProject pf (publicDir opts) (projectRoot opts)"
    using assms generatePrecacheManifest_rejects [of pf opts] by auto
  then have "snd (generatePrecacheManifest pf opts)
               = Inr (first_by_url [] (candidate_entries pf opts))"
    using generatePrecacheManifest_entries by blast
  with assms have es: "es = first_by_url [] (candidate_entries pf opts)"
    by simp
  show ?thesis
    unfolding es
    using first_by_url_distinct [of "[]" "candidate_entries pf opts"]
      first_by_url_subseq [of "[]" "candidate_entries pf opts"]
      first_by_url_urls [of "[]" "candidate_entries pf opts"]
      first_by_url_find [of _ "[]" "candidate_entries pf opts"]
    by auto
qed

theorem generatePrecacheManifest_distinct_first_wins_witness:
  "generatePrecacheManifest clash_platform clash_options
     = ([ReadFile ''/project/.next/build-manifest.json'',
         Stat ''/project/.next/static'', Globby ''/project/.next/static'' [],
         ReadFile ''/project/.next/static/a.js'',
         Stat ''/project/public'', Globby ''/project/public'' []],
        Inr [\<lparr>url = ''/_next/static/a.js'', revision = Some ''028a78f5''\<rparr>,
             \<lparr>url = ''/offline'', revision = None\<rparr>])
   \<and> candidate_entries clash_platform clash_options
       = [\<lparr>url = ''/_next/static/a.js'', revision = Some ''028a78f5''\<rparr>,
          \<lparr>url = ''/_next/static/a.js'', revision = Some ''5e0bd1c2''\<rparr>,
          \<lparr>url = ''/_next/static/a.js'', revision = Some ''extra''\<rparr>,
          \<lparr>url = ''/offline'', revision = None\<rparr>]
   \<and> distinct (map url [\<lparr>url = ''/_next/static/a.js'', revision = Some ''028a78f5''\<rparr>,
                          \<lparr>url = ''/offline'', revision = None\<rparr>])
   \<and> [\<lparr>url = ''/_next/static/a.js'', revision = Some ''028a78f5''\<rparr>,
        \<lparr>url = ''/offline'', revision = None\<rparr>]
       = first_by_url [] (candidate_entries clash_platform clash_options)"
proof -
  have g: "generatePrecacheManifest clash_platform clash_options
     = ([ReadFile ''/project/.next/build-manifest.json'',
         Stat ''/project/.next/static'', Globby ''/project/.next/static'' [],
         ReadFile ''/project/.next/static/a.js'',
         Stat ''/project/public'', Globby ''/project/public'' []],
        Inr [\<lparr>url = ''/_next/static/a.js'', revision = Some ''028a78f5''\<rparr>,
             \<lparr>url = ''/offline'', revision = None\<rparr>])"
    by code_simp
  have c: "candidate_entries clash_platform clash_options
       = [\<lparr>url = ''/_next/static/a.js'', revision = Some ''028a78f5''\<rparr>,
          \<lparr>url = ''/_next/static/a.js'', revision = Some ''5e0bd1c2''\<rparr>,
          \<lparr>url = ''/_next/static/a.js'', revision = Some ''extra''\<rparr>,
          \<lparr>url = ''/offline'', revision = None\<rparr>]"
    by code_simp
  from generatePrecacheManifest_distinct_first_wins [OF g] g c show ?thesis
    by simp
qed

text \<open>
  C9. When \<open>buildDir\<close> or \<open>publicDir\<close> fails the containment check against
  \<open>projectRoot\<close>, the generator rejects at once: it makes no file-system call, builds
  no entry and returns no manifest.
\<close>

theorem generatePrecacheManifest_containment_fatal:
  assumes "\<not> isPathWithinProject pf (buildDir opts) (projectRoot opts)
           \<or> \<not> isPathWithinProject pf (publicDir opts) (projectRoot opts)"
  shows "generatePrecacheManifest pf opts
           = ([], Inl (if \<not> isPathWithinProject pf (buildDir opts) (projectRoot opts)
                       then BuildDirOutsideProject else PublicDirOutsideProject))"
  using assms by (rule generatePrecacheManifest_rejects)

theorem generatePrecacheManifest_containment_fatal_witness:
  "\<not> isPathWithinProject scenario_platform (buildDir escaping_options)
        (projectRoot escaping_options)
   \<and> generatePrecacheManifest scenario_platform escaping_options
       = ([], Inl BuildDirOutsideProject)
   \<and> isPathWithinProject scenario_platform (buildDir escaping_public_options)
        (projectRoot escaping_public_options)
   \<and> \<not> isPathWithinProject scenario_platform (publicDir escaping_public_options)
        (projectRoot escaping_public_options)
   \<and> generatePrecacheManifest scenario_platform escaping_public_options
       = ([], Inl PublicDirOutsideProject)"
proof -
  have a: "\<not> isPathWithinProject scenario_platform (buildDir escaping_options)
        (projectRoot escaping_options)"
    by code_simp
  have b: "isPathWithinProject scenario_platform (buildDir escaping_public_options)
        (projectRoot escaping_public_options)"
    by code_simp
  have c: "\<not> isPathWithinProject scenario_platform (publicDir escaping_public_options)
        (projectRoot escaping_public_options)"
    by code_simp
  from a have "generatePrecacheManifest scenario_platform escaping_options
       = ([], Inl BuildDirOutsideProject)"
    using generatePrecacheManifest_containment_fatal [of scenario_platform escaping_options]
    by simp
  moreover from b c have "generatePrecacheManifest scenario_platform escaping_public_options
       = ([], Inl PublicDirOutsideProject)"
    using generatePrecacheManifest_containment_fatal [of scenario_platform escaping_public_options]
    by simp
  ultimately show ?thesis
    using a b c by blast
qed

subsection \<open>The end-to-end scenario\<close>

lemma scenario_asset_facts:
  "sanitizePath (JString ''/_next/static/chunks/abcdef1234.js'') \<noteq> []"
  "\<not> hasPathTraversal ''/_next/static/chunks/abcdef1234.js''"
  "\<not> hasPathTraversal ''/robots.txt''"
  "needsRevision ''/app/_next/static/chunks/abcdef1234.js''"
  "strip_next_prefix ''/_next/static/chunks/abcdef1234.js'' = ''static/chunks/abcdef1234.js''"
  by code_simp+

text \<open>
  C6, as stated, fails: \<open>abcdef1234.js\<close> matches neither pattern of \<open>needsRevision\<close>
  (the hexadecimal run follows a slash, not a dot, and no dash follows it), so the build
  asset gets a content revision, not \<open>null\<close>.
\<close>

theorem generatePrecacheManifest_scenario_counterexample:
  "snd (generatePrecacheManifest scenario_platform scenario_options)
     = Inr [\<lparr>url = ''/app/_next/static/chunks/abcdef1234.js'', revision = Some ''028a78f5''\<rparr>,
            \<lparr>url = ''/app/robots.txt'', revision = Some ''5e0bd1c2''\<rparr>]
   \<and> snd (generatePrecacheManifest scenario_platform scenario_options)
     \<noteq> Inr [\<lparr>url = ''/app/_next/static/chunks/abcdef1234.js'', revision = None\<rparr>,
            \<lparr>url = ''/app/robots.txt'',
             revision = Some (take 8 (md5_hex scenario_platform robots_txt))\<rparr>]"
proof -
  have "snd (generatePrecacheManifest scenario_platform scenario_options)
     = Inr [\<lparr>url = ''/app/_next/static/chunks/abcdef1234.js'', revision = Some ''028a78f5''\<rparr>,
            \<lparr>url = ''/app/robots.txt'', revision = Some ''5e0bd1c2''\<rparr>]"
    by code_simp
  then show ?thesis
    by simp
qed

text \<open>
  C6, amended. Given a build directory whose build manifest lists no asset and whose
  static tree holds only \<open>chunks/abcdef1234.js\<close>, a public directory holding only
  \<open>robots.txt\<close>, \<open>basePath\<close> \<open>/app\<close> and empty exclusion, rewrite and extra-entry
  options, the manifest has exactly two entries: the build asset under
  \<open>/app/_next/static/chunks/abcdef1234.js\<close> and \<open>/app/robots.txt\<close>, each with the
  first eight hexadecimal characters of the MD5 digest of its file's bytes as revision.
\<close>

theorem generatePrecacheManifest_scenario:
  assumes "isPathWithinProject pf (buildDir opts) (projectRoot opts)"
    and "isPathWithinProject pf (publicDir opts) (projectRoot opts)"
    and "basePath opts = ''/app''"
    and "buildExcludes opts = []" and "publicExcludes opts = []"
    and "modifyURLPrefix opts = []" and "additionalManifestEntries opts = []"
    and "(case snd (readBuildManifest pf (buildDir opts)) of
            Some m \<Rightarrow> extractAssetsFromManifest m | None \<Rightarrow> []) = []"
    and "fs_stat pf (path_join pf [buildDir opts, ''static''])"
    and "fs_globby pf (path_join pf [buildDir opts, ''static'']) [] = Some [''chunks/abcdef1234.js'']"
    and "fs_stat pf (publicDir opts)"
    and "fs_globby pf (publicDir opts) [] = Some [''robots.txt'']"
    and "fs_readFile pf (path_join pf [buildDir opts, ''static/chunks/abcdef1234.js'']) = Some chunk"
    and "fs_readFile pf (path_join pf [publicDir opts, ''robots.txt'']) = Some robots"
  shows "snd (generatePrecacheManifest pf opts)
           = Inr [\<lparr>url = ''/app/_next/static/chunks/abcdef1234.js'',
                   revision = Some (take 8 (md5_hex pf chunk))\<rparr>,
                  \<lparr>url = ''/app/robots.txt'', revision = Some (take 8 (md5_hex pf robots))\<rparr>]"
proof -
  have assets: "build_assets_of pf opts = [''/_next/static/chunks/abcdef1234.js'']"
    using assms(8,9,10)
    by (simp add: build_assets_of_def getStaticBuildFiles_def Let_def scenario_asset_facts
        set_add_all_def set_add_def)
  have pub: "snd (getPublicFiles pf (publicDir opts) (projectRoot opts) (publicExcludes opts))
               = [''/robots.txt'']"
    using assms(2,5,11,12) by (simp add: getPublicFiles_def scenario_asset_facts)
  have b: "build_candidate pf opts ''/_next/static/chunks/abcdef1234.js''
             = Some \<lparr>url = ''/app/_next/static/chunks/abcdef1234.js'',
                      revision = Some (take 8 (md5_hex pf chunk))\<rparr>"
    using assms(3,4,6,13)
    by (simp add: build_candidate_def scenario_asset_facts matchesExclusion_def with_basePath_def
        startsWith_def generateRevisionHash_def Let_def del: sanitizePath.simps)
  have p: "public_candidate pf opts ''/robots.txt''
             = \<lparr>url = ''/app/robots.txt'', revision = Some (take 8 (md5_hex pf robots))\<rparr>"
    using assms(3,6,14)
    by (simp add: public_candidate_def with_basePath_def generateRevisionHash_def)
  have "candidate_entries pf opts
          = [\<lparr>url = ''/app/_next/static/chunks/abcdef1234.js'',
               revision = Some (take 8 (md5_hex pf chunk))\<rparr>,
             \<lparr>url = ''/app/robots.txt'', revision = Some (take 8 (md5_hex pf robots))\<rparr>]"
    using assms(7) by (simp add: candidate_entries_def assets pub b p)
  with generatePrecacheManifest_entries [OF assms(1,2)] show ?thesis
    by simp
qed

theorem generatePrecacheManifest_scenario_witness:
  "isPathWithinProject scenario_platform (buildDir scenario_options) (projectRoot scenario_options)
   \<and> isPathWithinProject scenario_platform (publicDir scenario_options)
       (projectRoot scenario_options)
   \<and> basePath scenario_options = ''/app''
   \<and> buildExcludes scenario_options = [] \<and> publicExcludes scenario_options = []
   \<and> modifyURLPrefix scenario_options = [] \<and> additionalManifestEntries scenario_options = []
   \<and> (case snd (readBuildManifest scenario_platform (buildDir scenario_options)) of
         Some m \<Rightarrow> extractAssetsFromManifest m | None \<Rightarrow> []) = []
   \<and> fs_stat scenario_platform (path_join scenario_platform [buildDir scenario_options, ''static''])
   \<and> fs_globby scenario_platform
        (path_join scenario_platform [buildDir scenario_options, ''static'']) []
       = Some [''chunks/abcdef1234.js'']
   \<and> fs_stat scenario_platform (publicDir scenario_options)
   \<and> fs_globby scenario_platform (publicDir scenario_options) [] = Some [''robots.txt'']
   \<and> fs_readFile scenario_platform
        (path_join scenario_platform [buildDir scenario_options, ''static/chunks/abcdef1234.js''])
       = Some chunk_js
   \<and> fs_readFile scenario_platform
        (path_join scenario_platform [publicDir scenario_options, ''robots.txt''])
       = Some robots_txt
   \<and> snd (generatePrecacheManifest scenario_platform scenario_options)
       = Inr [\<lparr>url = ''/app/_next/static/chunks/abcdef1234.js'',
               revision = Some (take 8 (md5_hex scenario_platform chunk_js))\<rparr>,
              \<lparr>url = ''/app/robots.txt'',
               revision = Some (take 8 (md5_hex scenario_platform robots_txt))\<rparr>]"
proof -
  have h1: "isPathWithinProject scenario_platform (buildDir scenario_options)
              (projectRoot scenario_options)"
    by code_simp
  have h2: "isPathWithinProject scenario_platform (publicDir scenario_options)
              (projectRoot scenario_options)"
    by code_simp
  have h3: "basePath scenario_options = ''/app''"
    and h4: "buildExcludes scenario_options = []"
    and h5: "publicExcludes scenario_options = []"
    and h6: "modifyURLPrefix scenario_options = []"
    and h7: "additionalManifestEntries scenario_options = []"
    by (simp_all add: scenario_options_def)
  have h8: "(case snd (readBuildManifest scenario_platform (buildDir scenario_options)) of
         Some m \<Rightarrow> extractAssetsFromManifest m | None \<Rightarrow> []) = []"
    by code_simp
  have h9: "fs_stat scenario_platform
              (path_join scenario_platform [buildDir scenario_options, ''static''])"
    by code_simp
  have h10: "fs_globby scenario_platform
        (path_join scenario_platform [buildDir scenario_options, ''static'']) []
       = Some [''chunks/abcdef1234.js'']"
    by code_simp
  have h11: "fs_stat scenario_platform (publicDir scenario_options)"
    by code_simp
  have h12: "fs_globby scenario_platform (publicDir scenario_options) [] = Some [''robots.txt'']"
    by code_simp
  have h13: "fs_readFile scenario_platform
        (path_join scenario_platform [buildDir scenario_options, ''static/chunks/abcdef1234.js''])
       = Some chunk_js"
    by code_simp
  have h14: "fs_readFile scenario_platform
        (path_join scenario_platform [publicDir scenario_options, ''robots.txt''])
       = Some robots_txt"
    by code_simp
  from generatePrecacheManifest_scenario [OF h1 h2 h3 h4 h5 h6 h7 h8 h9 h10 h11 h12 h13 h14]
    h1 h2 h3 h4 h5 h6 h7 h8 h9 h10 h11 h12 h13 h14
  show ?thesis
    by blast
qed

section \<open>Properties of the escaper\<close>

subsection \<open>A text without the pattern passes unchanged\<close>




subsection \<open>A match that ignores case\<close>










subsection \<open>The pass for \<open></script>\<close> goes through the punctuation of a text\<close>

lemma escape_script_Nil [simp]: "escape_script [] = []"
  by (simp add: escape_script_def)







subsection \<open>\<open></script>\<close> in another case, within a part of a text\<close>




subsection \<open>The pass for \<open></script>\<close> writes no \<open><!--\<close>\<close>




subsection \<open>Reading a string back after the pass for \<open></script>\<close>\<close>

lemma parse_plain_char:
  "c \<noteq> DQ \<Longrightarrow> c \<noteq> BSL \<Longrightarrow> \<not> is_control c
   \<Longrightarrow> parse_string_body (c # r) = map_option (apfst ((#) c)) (parse_string_body r)"
  by simp


subsection \<open>A string written without a backslash is written as it is\<close>




subsection \<open>The text of a datum\<close>











lemma skip_ws_punct [simp]:
  "skip_ws (CHR '']'' # s) = CHR '']'' # s"
  "skip_ws (CHR ''}'' # s) = CHR ''}'' # s"
  "skip_ws (CHR '','' # s) = CHR '','' # s"
  "skip_ws (CHR '':'' # s) = CHR '':'' # s"
  "skip_ws [] = []"
  by (simp_all add: skip_ws_def is_json_ws_def)

subsection \<open>Reading the text of a datum back\<close>



lemma no_num_start_punct [simp]:
  "no_num_start (CHR '']'' # s)" "no_num_start (CHR ''}'' # s)" "no_num_start (CHR '','' # s)"
  by (simp_all add: is_num_char_def)







subsection \<open>The nesting budget of \<open>JSON.parse\<close> suffices\<close>





subsection \<open>The pass for \<open></script>\<close> on the text of a datum\<close>


subsection \<open>Each string of a datum stands in its text\<close>





subsection \<open>A cycle makes the serialization throw\<close>





subsection \<open>The round trip\<close>





end
